theory Spec2Isabelle
  imports Complex_Main "HOL-Library.Word"
begin

unbundle bit_operations_syntax

section \<open>Data model (package models)\<close>

text \<open>
  A \<^verbatim>\<open>*Player\<close> is an address into a store of player objects: the same object is
  reachable from the connection table, from the identifier table and from every game the
  player takes part in, and the rules engine writes through those pointers. The time
  stamps (LastSeen, StartTime, EndTime) are left out. Go's \<^verbatim>\<open>int\<close> is read as an
  unbounded integer: ratings start at 1000, and a finite expected score moves them by at
  most 64 a game.
\<close>

type_synonym ref = nat

record Player =
  ID :: string
  Name :: string
  Symbol :: string
  Wins :: int
  Losses :: int
  Draws :: int
  Rating :: int

type_synonym store = "ref \<Rightarrow> Player"

text \<open>The board is a \<^verbatim>\<open>[9]string\<close>: exactly nine cells, copied by value.\<close>

datatype board = Cells string string string string string string string string string

fun cells :: "board \<Rightarrow> string list" where
  "cells (Cells a b c d e f g h i) = [a, b, c, d, e, f, g, h, i]"

text \<open>\<^verbatim>\<open>board[n]\<close> and \<^verbatim>\<open>board[n] = v\<close>; every call site has checked \<open>n \<le> 8\<close>.\<close>

fun cell :: "board \<Rightarrow> nat \<Rightarrow> string" where
  "cell (Cells a b c d e f g h i) n =
     (if n = 0 then a else if n = 1 then b else if n = 2 then c
      else if n = 3 then d else if n = 4 then e else if n = 5 then f
      else if n = 6 then g else if n = 7 then h else i)"

fun put :: "board \<Rightarrow> nat \<Rightarrow> string \<Rightarrow> board" where
  "put (Cells a b c d e f g h i) n v =
     (if n = 0 then Cells v b c d e f g h i
      else if n = 1 then Cells a v c d e f g h i
      else if n = 2 then Cells a b v d e f g h i
      else if n = 3 then Cells a b c v e f g h i
      else if n = 4 then Cells a b c d v f g h i
      else if n = 5 then Cells a b c d e v g h i
      else if n = 6 then Cells a b c d e f v h i
      else if n = 7 then Cells a b c d e f g v i
      else Cells a b c d e f g h v)"

record Game =
  gID :: string
  Board :: board
  PlayerX :: "ref option"
  PlayerO :: "ref option"
  CurrentTurn :: string
  Status :: string
  Winner :: string

definition STATUS_WAITING :: string where "STATUS_WAITING = ''waiting''"
definition STATUS_PLAYING :: string where "STATUS_PLAYING = ''playing''"
definition STATUS_FINISHED :: string where "STATUS_FINISHED = ''finished''"

definition MSG_JOIN_QUEUE :: string where "MSG_JOIN_QUEUE = ''join_queue''"
definition MSG_LEAVE_QUEUE :: string where "MSG_LEAVE_QUEUE = ''leave_queue''"
definition MSG_MAKE_MOVE :: string where "MSG_MAKE_MOVE = ''make_move''"
definition MSG_LEADERBOARD :: string where "MSG_LEADERBOARD = ''leaderboard''"

text \<open>
  NewGame: the identifier comes from the UUID generator and is an argument here; the
  fields the literal leaves out (players, winner) have Go's zero values.
\<close>

definition NewGame :: "string \<Rightarrow> Game" where
  "NewGame uuid =
     \<lparr>gID = uuid, Board = Cells [] [] [] [] [] [] [] [] [],
      PlayerX = None, PlayerO = None,
      CurrentTurn = ''X'', Status = STATUS_WAITING, Winner = []\<rparr>"

definition NewPlayer :: "string \<Rightarrow> string \<Rightarrow> Player" where
  "NewPlayer uuid name =
     \<lparr>ID = uuid, Name = name, Symbol = [], Wins = 0, Losses = 0, Draws = 0, Rating = 1000\<rparr>"

section \<open>float64 values and integer division\<close>

text \<open>
  A float64 is a finite value, an infinity or NaN. Finite arithmetic is read exactly (the
  rounding of the 53-bit significand is not modelled); the infinities matter because Go's
  floating-point division by zero does not panic but returns one. Signed zeros are not
  kept apart: the only division of the program has the positive dividend 1.0 and a divisor
  \<open>1.0 + x\<close>, which is \<open>+0\<close> when it is zero.
\<close>

datatype float64 = Fin real | PInf | NInf | NaN

fun fneg :: "float64 \<Rightarrow> float64" where
  "fneg (Fin a) = Fin (- a)"
| "fneg PInf = NInf"
| "fneg NInf = PInf"
| "fneg NaN = NaN"

fun fadd :: "float64 \<Rightarrow> float64 \<Rightarrow> float64" where
  "fadd (Fin a) (Fin b) = Fin (a + b)"
| "fadd NaN _ = NaN"
| "fadd _ NaN = NaN"
| "fadd PInf NInf = NaN"
| "fadd NInf PInf = NaN"
| "fadd PInf _ = PInf"
| "fadd NInf _ = NInf"
| "fadd _ PInf = PInf"
| "fadd _ NInf = NInf"

definition fsub :: "float64 \<Rightarrow> float64 \<Rightarrow> float64" where
  "fsub a b = fadd a (fneg b)"

fun fmul :: "float64 \<Rightarrow> float64 \<Rightarrow> float64" where
  "fmul (Fin a) (Fin b) = Fin (a * b)"
| "fmul NaN _ = NaN"
| "fmul _ NaN = NaN"
| "fmul (Fin a) PInf = (if a = 0 then NaN else if 0 < a then PInf else NInf)"
| "fmul (Fin a) NInf = (if a = 0 then NaN else if 0 < a then NInf else PInf)"
| "fmul PInf (Fin b) = (if b = 0 then NaN else if 0 < b then PInf else NInf)"
| "fmul NInf (Fin b) = (if b = 0 then NaN else if 0 < b then NInf else PInf)"
| "fmul PInf PInf = PInf"
| "fmul NInf NInf = PInf"
| "fmul PInf NInf = NInf"
| "fmul NInf PInf = NInf"

fun fdiv :: "float64 \<Rightarrow> float64 \<Rightarrow> float64" where
  "fdiv (Fin a) (Fin b) =
     (if b = 0 then (if a = 0 then NaN else if 0 < a then PInf else NInf) else Fin (a / b))"
| "fdiv NaN _ = NaN"
| "fdiv _ NaN = NaN"
| "fdiv (Fin a) PInf = Fin 0"
| "fdiv (Fin a) NInf = Fin 0"
| "fdiv PInf (Fin b) = (if 0 \<le> b then PInf else NInf)"
| "fdiv NInf (Fin b) = (if 0 \<le> b then NInf else PInf)"
| "fdiv PInf PInf = NaN"
| "fdiv PInf NInf = NaN"
| "fdiv NInf PInf = NaN"
| "fdiv NInf NInf = NaN"

text \<open>
  \<^verbatim>\<open>int(f)\<close>: a finite value is truncated towards zero. Where the truncated value does not
  fit the 64-bit \<^verbatim>\<open>int\<close>, and for the infinities and NaN, the language leaves the result to
  the implementation: that result is the argument \<open>impl\<close>.
\<close>

definition truncToZero :: "real \<Rightarrow> int" where
  "truncToZero r = (if 0 \<le> r then \<lfloor>r\<rfloor> else \<lceil>r\<rceil>)"

fun toInt :: "(float64 \<Rightarrow> int) \<Rightarrow> float64 \<Rightarrow> int" where
  "toInt impl (Fin r) =
     (if - (2 ^ 63) \<le> truncToZero r \<and> truncToZero r < 2 ^ 63 then truncToZero r else impl (Fin r))"
| "toInt impl f = impl f"

text \<open>Go's integer division truncates towards zero; the only divisor used is 400.\<close>

definition quo :: "int \<Rightarrow> int \<Rightarrow> int" where
  "quo a b = (if (a < 0) = (b < 0) then \<bar>a\<bar> div \<bar>b\<bar> else - (\<bar>a\<bar> div \<bar>b\<bar>))"

section \<open>Rules engine (package game)\<close>

datatype error = NotPlaying | OutOfRange | CellOccupied | PlayerNotInGame | NotYourTurn

text \<open>The text each error carries (\<^verbatim>\<open>errors.New\<close>), as sent back to the client.\<close>

fun Error :: "error \<Rightarrow> string" where
  "Error NotPlaying = ''game is not in playing state''"
| "Error OutOfRange = ''invalid position''"
| "Error CellOccupied = ''position already occupied''"
| "Error PlayerNotInGame = ''player not in this game''"
| "Error NotYourTurn = ''not your turn''"

text \<open>
  IsValidMove reads the game and the two player objects and assigns to none of them, so
  its only result is the error (\<open>None\<close> for \<^verbatim>\<open>nil\<close>).
\<close>

definition IsValidMove :: "store \<Rightarrow> Game \<Rightarrow> string \<Rightarrow> int \<Rightarrow> error option" where
  "IsValidMove h game playerID position =
     (if Status game \<noteq> STATUS_PLAYING then Some NotPlaying
      else if position < 0 \<or> position > 8 then Some OutOfRange
      else if cell (Board game) (nat position) \<noteq> [] then Some CellOccupied
      else
        (case (if PlayerX game \<noteq> None \<and> ID (h (the (PlayerX game))) = playerID then Some ''X''
               else if PlayerO game \<noteq> None \<and> ID (h (the (PlayerO game))) = playerID then Some ''O''
               else None) of
           None \<Rightarrow> Some PlayerNotInGame
         | Some playerSymbol \<Rightarrow>
             if CurrentTurn game \<noteq> playerSymbol then Some NotYourTurn else None))"

definition winningCombos :: "(nat \<times> nat \<times> nat) list" where
  "winningCombos =
     [(0, 1, 2), (3, 4, 5), (6, 7, 8),
      (0, 3, 6), (1, 4, 7), (2, 5, 8),
      (0, 4, 8), (2, 4, 6)]"

text \<open>The loop of CheckWinner over the combinations, returning at the first match.\<close>

fun scanCombos :: "board \<Rightarrow> (nat \<times> nat \<times> nat) list \<Rightarrow> string" where
  "scanCombos b [] = []"
| "scanCombos b ((i, j, k) # rest) =
     (if cell b i \<noteq> [] \<and> cell b i = cell b j \<and> cell b j = cell b k then cell b i
      else scanCombos b rest)"

definition CheckWinner :: "board \<Rightarrow> string" where
  "CheckWinner b = scanCombos b winningCombos"

fun allFilled :: "string list \<Rightarrow> bool" where
  "allFilled [] = True"
| "allFilled (c # cs) = (if c = [] then False else allFilled cs)"

definition IsBoardFull :: "board \<Rightarrow> bool" where
  "IsBoardFull b = allFilled (cells b)"

text \<open>
  updateRating. In Go \<^verbatim>\<open>^\<close> is bitwise exclusive or, and both operands of
  \<^verbatim>\<open>10.0^((playerO.Rating-playerX.Rating)/400.0)\<close> are of type \<^verbatim>\<open>int\<close> (the untyped
  constants 10.0 and 400.0 take the type of the other operand), so the division is the
  integer one. \<^verbatim>\<open>K\<close> is 32. The four assignments go through the two pointers one after
  the other.
\<close>

definition expectedX :: "int \<Rightarrow> int \<Rightarrow> float64" where
  "expectedX ratingX ratingO =
     fdiv (Fin 1) (fadd (Fin 1) (Fin (of_int (10 XOR quo (ratingO - ratingX) 400))))"

definition ratingChangeX :: "(float64 \<Rightarrow> int) \<Rightarrow> int \<Rightarrow> int \<Rightarrow> float64 \<Rightarrow> int" where
  "ratingChangeX impl ratingX ratingO score =
     toInt impl (fmul (Fin 32) (fsub score (expectedX ratingX ratingO)))"

definition ratingChangeO :: "(float64 \<Rightarrow> int) \<Rightarrow> int \<Rightarrow> int \<Rightarrow> float64 \<Rightarrow> int" where
  "ratingChangeO impl ratingX ratingO score =
     toInt impl (fmul (Fin 32)
       (fsub (fsub (Fin 1) score) (fsub (Fin 1) (expectedX ratingX ratingO))))"

definition updateRating :: "(float64 \<Rightarrow> int) \<Rightarrow> store \<Rightarrow> ref \<Rightarrow> ref \<Rightarrow> float64 \<Rightarrow> store" where
  "updateRating impl h playerX playerO score =
     (let cX = ratingChangeX impl (Rating (h playerX)) (Rating (h playerO)) score;
          cO = ratingChangeO impl (Rating (h playerX)) (Rating (h playerO)) score;
          h1 = h(playerX := (h playerX)\<lparr>Rating := Rating (h playerX) + cX\<rparr>);
          h2 = h1(playerO := (h1 playerO)\<lparr>Rating := Rating (h1 playerO) + cO\<rparr>);
          h3 = (if Rating (h2 playerX) < 0 then h2(playerX := (h2 playerX)\<lparr>Rating := 0\<rparr>) else h2);
          h4 = (if Rating (h3 playerO) < 0 then h3(playerO := (h3 playerO)\<lparr>Rating := 0\<rparr>) else h3)
      in h4)"

definition updatePlayerStats :: "(float64 \<Rightarrow> int) \<Rightarrow> store \<Rightarrow> Game \<Rightarrow> store" where
  "updatePlayerStats impl h game =
     (case (PlayerX game, PlayerO game) of
        (Some px, Some po) \<Rightarrow>
          if Winner game = ''X'' then
            (let h1 = h(px := (h px)\<lparr>Wins := Wins (h px) + 1\<rparr>);
                 h2 = h1(po := (h1 po)\<lparr>Losses := Losses (h1 po) + 1\<rparr>)
             in updateRating impl h2 px po (Fin 1))
          else if Winner game = ''O'' then
            (let h1 = h(po := (h po)\<lparr>Wins := Wins (h po) + 1\<rparr>);
                 h2 = h1(px := (h1 px)\<lparr>Losses := Losses (h1 px) + 1\<rparr>)
             in updateRating impl h2 px po (Fin 0))
          else if Winner game = ''draw'' then
            (let h1 = h(px := (h px)\<lparr>Draws := Draws (h px) + 1\<rparr>);
                 h2 = h1(po := (h1 po)\<lparr>Draws := Draws (h1 po) + 1\<rparr>)
             in updateRating impl h2 px po (Fin (1 / 2)))
          else h
      | _ \<Rightarrow> h)"

text \<open>
  MakeMove mutates the game and, through it, the two players, and returns the error: the
  model returns the error together with the store and the game as they are afterwards.
\<close>

definition MakeMove ::
  "(float64 \<Rightarrow> int) \<Rightarrow> store \<Rightarrow> Game \<Rightarrow> string \<Rightarrow> int \<Rightarrow> error option \<times> store \<times> Game" where
  "MakeMove impl h game playerID position =
     (case IsValidMove h game playerID position of
        Some err \<Rightarrow> (Some err, h, game)
      | None \<Rightarrow>
          (let g1 = game\<lparr>Board := put (Board game) (nat position) (CurrentTurn game)\<rparr>;
               winner = CheckWinner (Board g1)
           in if winner \<noteq> [] then
                (let g2 = g1\<lparr>Status := STATUS_FINISHED, Winner := winner\<rparr>
                 in (None, updatePlayerStats impl h g2, g2))
              else if IsBoardFull (Board g1) then
                (let g2 = g1\<lparr>Status := STATUS_FINISHED, Winner := ''draw''\<rparr>
                 in (None, updatePlayerStats impl h g2, g2))
              else
                (None, h,
                 g1\<lparr>CurrentTurn := (if CurrentTurn g1 = ''X'' then ''O'' else ''X'')\<rparr>)))"

section \<open>Session core (package handlers)\<close>

text \<open>
  The payload of a message is an \<^verbatim>\<open>interface{}\<close> holding decoded JSON; every JSON number
  is a finite float64.
\<close>

datatype json =
  JNull | JBool bool | JNumber real | JString string
| JArray "json list" | JObject "(string \<times> json) list"

record GameMessage =
  Type :: string
  Data :: json
  GameID :: string
  PlayerID :: string

text \<open>
  The server: the three tables, the waiting list, the player objects the tables point
  to, and the mutex. A game object is reachable through its entry of \<open>games\<close> only, so the
  entry holds the game itself. The handlers are read as run one at a time, so between two
  of them the mutex is held only by a handler that never came back; \<open>mutex\<close> says that
  the write lock is held. The messages written to connections and the broadcast channel
  are not part of the state.
\<close>

record GameServer =
  clients :: "nat \<rightharpoonup> ref"
  games :: "string \<rightharpoonup> Game"
  players :: "string \<rightharpoonup> ref"
  matchmaking :: "string list"
  objects :: store
  mutex :: bool

text \<open>
  A call either returns, or blocks for ever; either way it leaves the server in a state.
\<close>

datatype 'a call = Returns 'a | Blocks 'a

fun after :: "'a call \<Rightarrow> 'a" where
  "after (Returns s) = s"
| "after (Blocks s) = s"

fun andThen :: "'a call \<Rightarrow> ('a \<Rightarrow> 'a call) \<Rightarrow> 'a call" where
  "andThen (Returns s) f = f s"
| "andThen (Blocks s) f = Blocks s"

text \<open>
  \<^verbatim>\<open>sync.RWMutex\<close> is not reentrant: Lock and RLock wait while the write lock is held,
  whoever holds it. A read lock is taken and released within one call, so it leaves no
  trace in the state.
\<close>

definition Lock :: "GameServer \<Rightarrow> GameServer call" where
  "Lock gs = (if mutex gs then Blocks gs else Returns (gs\<lparr>mutex := True\<rparr>))"

definition Unlock :: "GameServer \<Rightarrow> GameServer" where
  "Unlock gs = gs\<lparr>mutex := False\<rparr>"

definition RLock :: "GameServer \<Rightarrow> GameServer call" where
  "RLock gs = (if mutex gs then Blocks gs else Returns gs)"

definition NewGameServer :: "store \<Rightarrow> GameServer" where
  "NewGameServer mem =
     \<lparr>clients = Map.empty, games = Map.empty, players = Map.empty,
      matchmaking = [], objects = mem, mutex = False\<rparr>"

text \<open>
  The senders: sendToPlayer holds the read lock while it looks for the connection and
  writes; getLeaderboard while it collects the players. What is sent is left out.
\<close>

definition sendToPlayer :: "GameServer \<Rightarrow> string \<Rightarrow> GameServer call" where
  "sendToPlayer gs playerID = RLock gs"

definition sendError :: "GameServer \<Rightarrow> string \<Rightarrow> GameServer call" where
  "sendError gs playerID = sendToPlayer gs playerID"

definition sendGameUpdate :: "GameServer \<Rightarrow> Game \<Rightarrow> GameServer call" where
  "sendGameUpdate gs gameInstance =
     andThen
       (case PlayerX gameInstance of
          None \<Rightarrow> Returns gs
        | Some px \<Rightarrow> sendToPlayer gs (ID (objects gs px)))
       (\<lambda>gs1. case PlayerO gameInstance of
                 None \<Rightarrow> Returns gs1
               | Some po \<Rightarrow> sendToPlayer gs1 (ID (objects gs1 po)))"

definition getLeaderboard :: "GameServer \<Rightarrow> GameServer call" where
  "getLeaderboard gs = RLock gs"

definition sendLeaderboard :: "GameServer \<Rightarrow> GameServer call" where
  "sendLeaderboard gs = getLeaderboard gs"

definition broadcastLeaderboard :: "GameServer \<Rightarrow> GameServer call" where
  "broadcastLeaderboard gs = getLeaderboard gs"

text \<open>
  The registration at the head of HandleWebSocket: \<open>conn\<close> is the new connection, \<open>r\<close> the
  address the allocator gives the new Player and \<open>uuid\<close> its generated identifier.
\<close>

definition HandleWebSocket_register ::
  "GameServer \<Rightarrow> nat \<Rightarrow> ref \<Rightarrow> string \<Rightarrow> string \<Rightarrow> GameServer call" where
  "HandleWebSocket_register gs conn r uuid name =
     (let playerName = (if name = [] then ''Anonymous'' else name)
      in andThen (Lock gs)
           (\<lambda>gs1. Returns (Unlock
              (gs1\<lparr>objects := (objects gs1)(r := NewPlayer uuid playerName),
                    clients := (clients gs1)(conn \<mapsto> r),
                    players := (players gs1)(uuid \<mapsto> r)\<rparr>))))"

text \<open>
  createMatch; \<open>uuid\<close> is the identifier NewGame would generate. It takes no lock itself:
  its caller holds the write lock. Once the game is stored it notifies the two players
  through sendToPlayer.
\<close>

definition createMatch :: "string \<Rightarrow> GameServer \<Rightarrow> GameServer call" where
  "createMatch uuid gs =
     (case matchmaking gs of
        player1ID # player2ID # rest \<Rightarrow>
          (let gs1 = gs\<lparr>matchmaking := rest\<rparr>
           in case (players gs1 player1ID, players gs1 player2ID) of
                (Some player1, Some player2) \<Rightarrow>
                  (let newGame = (NewGame uuid)
                         \<lparr>PlayerX := Some player1, PlayerO := Some player2,
                          Status := STATUS_PLAYING\<rparr>;
                       h1 = (objects gs1)(player1 := (objects gs1 player1)\<lparr>Symbol := ''X''\<rparr>);
                       h2 = h1(player2 := (h1 player2)\<lparr>Symbol := ''O''\<rparr>);
                       gs2 = gs1\<lparr>objects := h2, games := (games gs1)(gID newGame \<mapsto> newGame)\<rparr>
                   in andThen (sendToPlayer gs2 (ID (h2 player1)))
                        (\<lambda>gs3. sendToPlayer gs3 (ID (h2 player2))))
              | _ \<Rightarrow> Returns gs1)
      | _ \<Rightarrow> Returns gs)"

text \<open>
  handleJoinQueue, handleLeaveQueue and handleDisconnect take the write lock on entry and
  release it, by \<^verbatim>\<open>defer\<close>, when they return.
\<close>

definition handleJoinQueue :: "string \<Rightarrow> GameServer \<Rightarrow> ref \<Rightarrow> GameServer call" where
  "handleJoinQueue uuid gs player =
     andThen (Lock gs)
       (\<lambda>gs1.
          if ID (objects gs1 player) \<in> set (matchmaking gs1) then Returns (Unlock gs1)
          else
            (let gs2 = gs1\<lparr>matchmaking := matchmaking gs1 @ [ID (objects gs1 player)]\<rparr>
             in if length (matchmaking gs2) \<ge> 2
                then andThen (createMatch uuid gs2) (\<lambda>gs3. Returns (Unlock gs3))
                else Returns (Unlock gs2)))"

definition handleLeaveQueue :: "GameServer \<Rightarrow> ref \<Rightarrow> GameServer call" where
  "handleLeaveQueue gs player =
     andThen (Lock gs)
       (\<lambda>gs1. Returns (Unlock
          (gs1\<lparr>matchmaking := remove1 (ID (objects gs1 player)) (matchmaking gs1)\<rparr>)))"

text \<open>
  handleMakeMove re-encodes the payload and decodes it into a map from keys to values; a
  payload that is not a JSON object leaves the map empty. The two type assertions accept
  a string under \<^verbatim>\<open>gameId\<close> and a number under \<^verbatim>\<open>position\<close>. The lock is held for the
  lookup of the game only. MakeMove works on the game object the table points to, so the
  entry holds afterwards whatever MakeMove left.
\<close>

definition decodeObject :: "json \<Rightarrow> (string \<rightharpoonup> json)" where
  "decodeObject d = (case d of JObject kvs \<Rightarrow> map_of kvs | _ \<Rightarrow> Map.empty)"

definition handleMakeMove ::
  "(float64 \<Rightarrow> int) \<Rightarrow> GameServer \<Rightarrow> GameMessage \<Rightarrow> GameServer call" where
  "handleMakeMove impl gs msg =
     (let moveData = decodeObject (Data msg)
      in case moveData ''gameId'' of
           Some (JString gameID) \<Rightarrow>
             (case moveData ''position'' of
                Some (JNumber position) \<Rightarrow>
                  andThen (Lock gs)
                    (\<lambda>gs1.
                       let found = games gs1 gameID; gs2 = Unlock gs1
                       in case found of
                            None \<Rightarrow> sendError gs2 (PlayerID msg)
                          | Some gameInstance \<Rightarrow>
                              (case MakeMove impl (objects gs2) gameInstance (PlayerID msg)
                                      (toInt impl (Fin position)) of
                                 (err, h, g) \<Rightarrow>
                                   (let gs3 = gs2\<lparr>objects := h, games := (games gs2)(gameID \<mapsto> g)\<rparr>
                                    in case err of
                                         Some e \<Rightarrow> sendError gs3 (PlayerID msg)
                                       | None \<Rightarrow>
                                           andThen (sendGameUpdate gs3 g)
                                             (\<lambda>gs4. if Status g = STATUS_FINISHED
                                                     then broadcastLeaderboard gs4
                                                     else Returns gs4))))
              | _ \<Rightarrow> Returns gs)
         | _ \<Rightarrow> Returns gs)"

definition handleMessage ::
  "(float64 \<Rightarrow> int) \<Rightarrow> string \<Rightarrow> GameServer \<Rightarrow> nat \<Rightarrow> GameMessage \<Rightarrow> GameServer call" where
  "handleMessage impl uuid gs conn msg =
     andThen (Lock gs)
       (\<lambda>gs1.
          let found = clients gs1 conn; gs2 = Unlock gs1
          in case found of
               None \<Rightarrow> Returns gs2
             | Some player \<Rightarrow>
                 (let msg1 = msg\<lparr>PlayerID := ID (objects gs2 player)\<rparr>
                  in if Type msg1 = MSG_JOIN_QUEUE then handleJoinQueue uuid gs2 player
                     else if Type msg1 = MSG_LEAVE_QUEUE then handleLeaveQueue gs2 player
                     else if Type msg1 = MSG_MAKE_MOVE then handleMakeMove impl gs2 msg1
                     else if Type msg1 = MSG_LEADERBOARD then sendLeaderboard gs2
                     else Returns gs2))"

definition handleDisconnect :: "GameServer \<Rightarrow> nat \<Rightarrow> GameServer call" where
  "handleDisconnect gs conn =
     andThen (Lock gs)
       (\<lambda>gs1. case clients gs1 conn of
                 None \<Rightarrow> Returns (Unlock gs1)
               | Some player \<Rightarrow>
                   Returns (Unlock
                     (gs1\<lparr>matchmaking := remove1 (ID (objects gs1 player)) (matchmaking gs1),
                           clients := (clients gs1)(conn := None)\<rparr>)))"

section \<open>Runs\<close>

text \<open>
  A sequence of calls of MakeMove on one game, each with the player identifier and the
  position submitted; the number returned counts the calls that returned no error.
\<close>

fun applyMoves ::
  "(float64 \<Rightarrow> int) \<Rightarrow> store \<Rightarrow> Game \<Rightarrow> (string \<times> int) list \<Rightarrow> store \<times> Game \<times> nat" where
  "applyMoves impl h g [] = (h, g, 0)"
| "applyMoves impl h g ((playerID, position) # ms) =
     (case MakeMove impl h g playerID position of
        (None, h1, g1) \<Rightarrow>
          (case applyMoves impl h1 g1 ms of (h2, g2, n) \<Rightarrow> (h2, g2, Suc n))
      | (Some err, h1, g1) \<Rightarrow> applyMoves impl h1 g1 ms)"

text \<open>
  What happens to a server: a connection is opened, sends a message, or is closed. The
  handler of each event is run on the state the one before left, whether or not that one
  returned.
\<close>

datatype event =
  Connect nat ref string string
| Message nat GameMessage string
| Disconnect nat

fun serve :: "(float64 \<Rightarrow> int) \<Rightarrow> GameServer \<Rightarrow> event \<Rightarrow> GameServer" where
  "serve impl gs (Connect conn r uuid name) = after (HandleWebSocket_register gs conn r uuid name)"
| "serve impl gs (Message conn msg uuid) = after (handleMessage impl uuid gs conn msg)"
| "serve impl gs (Disconnect conn) = after (handleDisconnect gs conn)"

section \<open>The specification's terms\<close>

text \<open>The eight lines of the board, by rows, columns and diagonals.\<close>

definition rows :: "(nat \<times> nat \<times> nat) list" where
  "rows = map (\<lambda>r. (3 * r, 3 * r + 1, 3 * r + 2)) [0..<3]"

definition columns :: "(nat \<times> nat \<times> nat) list" where
  "columns = map (\<lambda>c. (c, c + 3, c + 6)) [0..<3]"

definition diagonals :: "(nat \<times> nat \<times> nat) list" where
  "diagonals = [(0, 4, 8), (2, 4, 6)]"

definition lineComplete :: "board \<Rightarrow> nat \<times> nat \<times> nat \<Rightarrow> bool" where
  "lineComplete b l =
     (case l of (i, j, k) \<Rightarrow> cell b i \<noteq> [] \<and> cell b j = cell b i \<and> cell b k = cell b i)"

definition hasLine :: "board \<Rightarrow> bool" where
  "hasLine b = (\<exists>l \<in> set (rows @ columns @ diagonals). lineComplete b l)"

definition filled :: "board \<Rightarrow> nat" where
  "filled b = length (filter (\<lambda>c. c \<noteq> []) (cells b))"

text \<open>
  The result of the specification's evaluateTermination: the test MakeMove makes on the
  board after writing the cell.
\<close>

datatype outcome = NoOutcome | WinnerIs string | Draw

definition evaluateTermination :: "board \<Rightarrow> outcome" where
  "evaluateTermination b =
     (let winner = CheckWinner b
      in if winner \<noteq> [] then WinnerIs winner
         else if IsBoardFull b then Draw else NoOutcome)"

text \<open>A player slot of a game holds the player with the given identifier.\<close>

definition assigned :: "store \<Rightarrow> ref option \<Rightarrow> string \<Rightarrow> bool" where
  "assigned h p playerID = (case p of None \<Rightarrow> False | Some r \<Rightarrow> ID (h r) = playerID)"

text \<open>The rating formulas as the specification writes them.\<close>

definition specExpectedX :: "int \<Rightarrow> int \<Rightarrow> real" where
  "specExpectedX ratingX ratingO =
     1 / (1 + 10 powr ((real_of_int ratingO - real_of_int ratingX) / 400))"

definition specDelta :: "real \<Rightarrow> real \<Rightarrow> int" where
  "specDelta actualOwn expectedOwn = round (32 * (actualOwn - expectedOwn))"

section \<open>Invariants of a game in play\<close>

definition countSym :: "string \<Rightarrow> board \<Rightarrow> nat" where
  "countSym s b = length (filter (\<lambda>c. c = s) (cells b))"

definition symbolsOnly :: "board \<Rightarrow> bool" where
  "symbolsOnly b = list_all (\<lambda>c. c = [] \<or> c = ''X'' \<or> c = ''O'') (cells b)"

text \<open>
  X moves first and the symbols alternate: while the game is played the counts of the
  two symbols say whose turn it is, and once it is finished they differ by at most one.
\<close>

definition wellFormed :: "Game \<Rightarrow> bool" where
  "wellFormed g =
     (symbolsOnly (Board g) \<and>
      (if Status g = STATUS_PLAYING then
         Winner g = [] \<and>
         (if CurrentTurn g = ''X'' then countSym ''X'' (Board g) = countSym ''O'' (Board g)
          else CurrentTurn g = ''O'' \<and>
               countSym ''X'' (Board g) = Suc (countSym ''O'' (Board g)))
       else
         Status g = STATUS_FINISHED \<and>
         (Winner g = ''X'' \<or> Winner g = ''O'' \<or> Winner g = ''draw'') \<and>
         (countSym ''X'' (Board g) = countSym ''O'' (Board g) \<or>
          countSym ''X'' (Board g) = Suc (countSym ''O'' (Board g)))))"

section \<open>The scenario of the specification\<close>

text \<open>
  Alice and Bob, fresh players at the addresses 0 and 1, and the game a match between
  them starts with: Alice holds X and moves first.
\<close>

definition scenarioStore :: store where
  "scenarioStore =
     (\<lambda>_. NewPlayer [] [])(0 := NewPlayer ''a'' ''Alice'', 1 := NewPlayer ''b'' ''Bob'')"

definition scenarioGame :: Game where
  "scenarioGame =
     (NewGame ''g'')\<lparr>PlayerX := Some 0, PlayerO := Some 1, Status := STATUS_PLAYING\<rparr>"

text \<open>
  A server on which Alice, Bob and Carol have connected (connections 10, 11 and 12), and
  the same server with a game between Alice and Bob in its table.
\<close>

definition scenarioServer :: GameServer where
  "scenarioServer =
     foldl (serve (\<lambda>_. 0)) (NewGameServer (\<lambda>_. NewPlayer [] []))
       [Connect 10 0 ''a'' ''Alice'', Connect 11 1 ''b'' ''Bob'', Connect 12 2 ''c'' ''Carol'']"

definition scenarioPlaying :: GameServer where
  "scenarioPlaying = scenarioServer\<lparr>games := [''g'' \<mapsto> scenarioGame]\<rparr>"

text \<open>
  The request to join the waiting list, and the server as the join that matches Alice
  with Bob leaves it: the game stored, the list empty, the write lock held.
\<close>

definition joinQueue :: GameMessage where
  "joinQueue = \<lparr>Type = MSG_JOIN_QUEUE, Data = JNull, GameID = [], PlayerID = []\<rparr>"

definition hungServer :: GameServer where
  "hungServer =
     scenarioServer
       \<lparr>games := [''g'' \<mapsto> scenarioGame],
        objects := (objects scenarioServer)
          (0 := (objects scenarioServer 0)\<lparr>Symbol := ''X''\<rparr>,
           1 := (objects scenarioServer 1)\<lparr>Symbol := ''O''\<rparr>),
        mutex := True\<rparr>"

text \<open>
  Two \<^verbatim>\<open>make_move\<close> messages for cell 0 of that game: one as an honest client sends it,
  one claiming to come from Bob, in the envelope and in the payload.
\<close>

definition honestMove :: GameMessage where
  "honestMove =
     \<lparr>Type = MSG_MAKE_MOVE,
      Data = JObject [(''gameId'', JString ''g''), (''position'', JNumber 0)],
      GameID = ''g'', PlayerID = ''a''\<rparr>"

definition forgedMove :: GameMessage where
  "forgedMove =
     \<lparr>Type = MSG_MAKE_MOVE,
      Data = JObject [(''playerId'', JString ''b''), (''gameId'', JString ''g''),
                      (''position'', JNumber 0)],
      GameID = [], PlayerID = ''b''\<rparr>"

text \<open>Alice rated 4400 and Bob rated 0, and a game between them that ended in a draw.\<close>

definition lopsidedStore :: store where
  "lopsidedStore =
     scenarioStore(0 := (scenarioStore 0)\<lparr>Rating := 4400\<rparr>,
                   1 := (scenarioStore 1)\<lparr>Rating := 0\<rparr>)"

definition drawnGame :: Game where
  "drawnGame =
     scenarioGame\<lparr>Board := Cells ''X'' ''O'' ''X'' ''X'' ''O'' ''O'' ''O'' ''X'' ''X'',
                   Status := STATUS_FINISHED, Winner := ''draw''\<rparr>"

definition scenarioMoves :: "(string \<times> int) list" where
  "scenarioMoves = [(''a'', 0), (''b'', 4), (''a'', 1), (''b'', 5), (''a'', 2)]"

section \<open>Boards\<close>

lemma index_cases: "n \<le> 8 \<Longrightarrow> n \<in> {0, 1, 2, 3, 4, 5, 6, 7, 8::nat}"
  by auto

lemma cell_put_same: "n \<le> 8 \<Longrightarrow> cell (put b n v) n = v"
  by (cases b) simp

lemma cell_put_other: "n \<le> 8 \<Longrightarrow> m \<le> 8 \<Longrightarrow> m \<noteq> n \<Longrightarrow> cell (put b n v) m = cell b m"
  by (cases b) (use index_cases [of n] index_cases [of m] in auto)

lemma lines_eq:
  "rows @ columns @ diagonals =
     [(0, 1, 2), (3, 4, 5), (6, 7, 8), (0, 3, 6), (1, 4, 7), (2, 5, 8), (0, 4, 8), (2, 4, 6)]"
  by (simp add: rows_def columns_def diagonals_def upt_rec)

lemma lines_are_winningCombos: "rows @ columns @ diagonals = winningCombos"
  by (simp add: lines_eq winningCombos_def)

lemma scanCombos_nonempty_iff: "scanCombos b ls \<noteq> [] \<longleftrightarrow> (\<exists>l \<in> set ls. lineComplete b l)"
  by (induction b ls rule: scanCombos.induct) (auto simp: lineComplete_def)

lemma scanCombos_result:
  "scanCombos b ls \<noteq> [] \<Longrightarrow>
     \<exists>l \<in> set ls. lineComplete b l \<and> scanCombos b ls = cell b (fst l)"
  by (induction b ls rule: scanCombos.induct) (auto simp: lineComplete_def split: if_splits)

lemma CheckWinner_nonempty_iff: "CheckWinner b \<noteq> [] \<longleftrightarrow> hasLine b"
  by (simp add: CheckWinner_def hasLine_def scanCombos_nonempty_iff lines_are_winningCombos)

lemma IsBoardFull_iff_filled: "IsBoardFull b \<longleftrightarrow> filled b = 9"
  by (cases b) (simp add: IsBoardFull_def filled_def)

lemma IsBoardFull_iff_cells: "IsBoardFull b \<longleftrightarrow> (\<forall>n \<le> 8. cell b n \<noteq> [])"
proof (cases b)
  case (Cells a b c d e f g h i)
  have "(\<forall>n \<le> 8. P n) \<longleftrightarrow> P 0 \<and> P 1 \<and> P 2 \<and> P 3 \<and> P 4 \<and> P 5 \<and> P 6 \<and> P 7 \<and> P (8::nat)" for P
    using index_cases by auto
  then show ?thesis using Cells by (simp add: IsBoardFull_def)
qed

lemmas scenario_defs =
  scenarioStore_def scenarioGame_def NewGame_def NewPlayer_def
  STATUS_PLAYING_def STATUS_FINISHED_def STATUS_WAITING_def assigned_def

section \<open>Move validation\<close>

lemma IsValidMove_None_iff:
  "IsValidMove h game playerID position = None \<longleftrightarrow>
     Status game = STATUS_PLAYING \<and> 0 \<le> position \<and> position \<le> 8 \<and>
     cell (Board game) (nat position) = [] \<and>
     (if assigned h (PlayerX game) playerID then CurrentTurn game = ''X''
      else assigned h (PlayerO game) playerID \<and> CurrentTurn game = ''O'')"
  by (auto simp: IsValidMove_def assigned_def split: option.splits)

text \<open>
  C2. IsValidMove makes its five checks in a fixed order and reports the first that
  fails: NotPlaying when the status is not \<^verbatim>\<open>playing\<close>; otherwise OutOfRange when the
  position is below 0 or above 8; otherwise CellOccupied when the cell holds a symbol;
  otherwise PlayerNotInGame when the identifier is that of neither assigned player;
  otherwise NotYourTurn when the symbol of the slot the identifier matches (X before O) is
  not the current turn; otherwise it returns no error. The function assigns to nothing:
  it reads the game and the players, and the error is all it yields.
\<close>

theorem IsValidMove_checks_in_order:
  "(Status game \<noteq> STATUS_PLAYING \<longrightarrow>
      IsValidMove h game playerID position = Some NotPlaying) \<and>
   (Status game = STATUS_PLAYING \<and> (position < 0 \<or> 8 < position) \<longrightarrow>
      IsValidMove h game playerID position = Some OutOfRange) \<and>
   (Status game = STATUS_PLAYING \<and> 0 \<le> position \<and> position \<le> 8 \<and>
    cell (Board game) (nat position) \<noteq> [] \<longrightarrow>
      IsValidMove h game playerID position = Some CellOccupied) \<and>
   (Status game = STATUS_PLAYING \<and> 0 \<le> position \<and> position \<le> 8 \<and>
    cell (Board game) (nat position) = [] \<and>
    \<not> assigned h (PlayerX game) playerID \<and> \<not> assigned h (PlayerO game) playerID \<longrightarrow>
      IsValidMove h game playerID position = Some PlayerNotInGame) \<and>
   (Status game = STATUS_PLAYING \<and> 0 \<le> position \<and> position \<le> 8 \<and>
    cell (Board game) (nat position) = [] \<and>
    assigned h (PlayerX game) playerID \<and> CurrentTurn game \<noteq> ''X'' \<longrightarrow>
      IsValidMove h game playerID position = Some NotYourTurn) \<and>
   (Status game = STATUS_PLAYING \<and> 0 \<le> position \<and> position \<le> 8 \<and>
    cell (Board game) (nat position) = [] \<and>
    \<not> assigned h (PlayerX game) playerID \<and> assigned h (PlayerO game) playerID \<and>
    CurrentTurn game \<noteq> ''O'' \<longrightarrow>
      IsValidMove h game playerID position = Some NotYourTurn) \<and>
   (Status game = STATUS_PLAYING \<and> 0 \<le> position \<and> position \<le> 8 \<and>
    cell (Board game) (nat position) = [] \<and>
    (assigned h (PlayerX game) playerID \<and> CurrentTurn game = ''X'' \<or>
     \<not> assigned h (PlayerX game) playerID \<and> assigned h (PlayerO game) playerID \<and>
     CurrentTurn game = ''O'') \<longrightarrow>
      IsValidMove h game playerID position = None)"
  by (auto simp: IsValidMove_def assigned_def split: option.splits)

theorem IsValidMove_checks_in_order_witness:
  "IsValidMove scenarioStore (scenarioGame\<lparr>Status := STATUS_FINISHED\<rparr>) ''a'' 0 = Some NotPlaying \<and>
   IsValidMove scenarioStore scenarioGame ''a'' 9 = Some OutOfRange \<and>
   IsValidMove scenarioStore (scenarioGame\<lparr>Board := put (Board scenarioGame) 4 ''O''\<rparr>) ''a'' 4
     = Some CellOccupied \<and>
   IsValidMove scenarioStore scenarioGame ''c'' 0 = Some PlayerNotInGame \<and>
   IsValidMove scenarioStore (scenarioGame\<lparr>CurrentTurn := ''O''\<rparr>) ''a'' 0 = Some NotYourTurn \<and>
   IsValidMove scenarioStore scenarioGame ''b'' 0 = Some NotYourTurn \<and>
   IsValidMove scenarioStore scenarioGame ''a'' 0 = None"
  using
    IsValidMove_checks_in_order
      [where game = "scenarioGame\<lparr>Status := STATUS_FINISHED\<rparr>" and h = scenarioStore
         and playerID = "''a''" and position = 0]
    IsValidMove_checks_in_order
      [where game = scenarioGame and h = scenarioStore and playerID = "''a''" and position = 9]
    IsValidMove_checks_in_order
      [where game = "scenarioGame\<lparr>Board := put (Board scenarioGame) 4 ''O''\<rparr>"
         and h = scenarioStore and playerID = "''a''" and position = 4]
    IsValidMove_checks_in_order
      [where game = scenarioGame and h = scenarioStore and playerID = "''c''" and position = 0]
    IsValidMove_checks_in_order
      [where game = "scenarioGame\<lparr>CurrentTurn := ''O''\<rparr>" and h = scenarioStore
         and playerID = "''a''" and position = 0]
    IsValidMove_checks_in_order
      [where game = scenarioGame and h = scenarioStore and playerID = "''b''" and position = 0]
    IsValidMove_checks_in_order
      [where game = scenarioGame and h = scenarioStore and playerID = "''a''" and position = 0]
  by (simp add: scenario_defs)

section \<open>Applying a move\<close>

lemmas board_defs = hasLine_def lines_eq lineComplete_def filled_def

lemma MakeMove_rejected:
  "IsValidMove h game playerID position = Some err \<Longrightarrow>
     MakeMove impl h game playerID position = (Some err, h, game)"
  by (simp add: MakeMove_def)

lemma MakeMove_accepted:
  assumes "IsValidMove h game playerID position = None"
  shows "MakeMove impl h game playerID position =
     (let b = put (Board game) (nat position) (CurrentTurn game)
      in case evaluateTermination b of
           WinnerIs w \<Rightarrow>
             (None,
              updatePlayerStats impl h (game\<lparr>Board := b, Status := STATUS_FINISHED, Winner := w\<rparr>),
              game\<lparr>Board := b, Status := STATUS_FINISHED, Winner := w\<rparr>)
         | Draw \<Rightarrow>
             (None,
              updatePlayerStats impl h
                (game\<lparr>Board := b, Status := STATUS_FINISHED, Winner := ''draw''\<rparr>),
              game\<lparr>Board := b, Status := STATUS_FINISHED, Winner := ''draw''\<rparr>)
         | NoOutcome \<Rightarrow>
             (None, h,
              game\<lparr>Board := b, CurrentTurn := (if CurrentTurn game = ''X'' then ''O'' else ''X'')\<rparr>))"
  using assms by (simp add: MakeMove_def evaluateTermination_def Let_def)

lemma MakeMove_fst:
  "fst (MakeMove impl h game playerID position) = IsValidMove h game playerID position"
  by (cases "IsValidMove h game playerID position")
     (simp_all add: MakeMove_def Let_def)

text \<open>
  C3. When IsValidMove accepts the move, MakeMove returns no error and writes the symbol
  whose turn it is into the cell, leaving the eight other cells as they were. If the
  board then has a complete line or no empty cell, the status is \<^verbatim>\<open>finished\<close> and the
  turn is the one it was; otherwise the game goes on, the players are untouched, and
  the turn is the other symbol.
\<close>

theorem MakeMove_applies_move:
  assumes "IsValidMove h game playerID position = None"
    and "MakeMove impl h game playerID position = (err, h', g')"
  shows "err = None \<and>
     Board g' = put (Board game) (nat position) (CurrentTurn game) \<and>
     cell (Board g') (nat position) = CurrentTurn game \<and>
     (\<forall>n \<le> 8. n \<noteq> nat position \<longrightarrow> cell (Board g') n = cell (Board game) n) \<and>
     (if hasLine (Board g') \<or> filled (Board g') = 9
      then Status g' = STATUS_FINISHED \<and> CurrentTurn g' = CurrentTurn game
      else Status g' = STATUS_PLAYING \<and> h' = h \<and> Winner g' = Winner game \<and>
           CurrentTurn g' \<noteq> CurrentTurn game \<and>
           CurrentTurn g' = (if CurrentTurn game = ''X'' then ''O'' else ''X''))"
proof -
  let ?b = "put (Board game) (nat position) (CurrentTurn game)"
  from assms(1) have valid:
    "Status game = STATUS_PLAYING" "0 \<le> position" "position \<le> 8"
    "CurrentTurn game = ''X'' \<or> CurrentTurn game = ''O''"
    by (auto simp: IsValidMove_None_iff split: if_splits)
  have pos: "nat position \<le> 8" using valid by simp
  have board: "Board g' = ?b" and err: "err = None"
    using assms by (auto simp: MakeMove_def Let_def split: if_splits)
  have written: "cell ?b (nat position) = CurrentTurn game"
    using pos by (rule cell_put_same)
  have others: "\<forall>n \<le> 8. n \<noteq> nat position \<longrightarrow> cell ?b n = cell (Board game) n"
    using pos by (simp add: cell_put_other)
  have outcome:
    "if hasLine ?b \<or> filled ?b = 9
     then Status g' = STATUS_FINISHED \<and> CurrentTurn g' = CurrentTurn game
     else Status g' = STATUS_PLAYING \<and> h' = h \<and> Winner g' = Winner game \<and>
          CurrentTurn g' \<noteq> CurrentTurn game \<and>
          CurrentTurn g' = (if CurrentTurn game = ''X'' then ''O'' else ''X'')"
    using assms valid
    by (auto simp: MakeMove_def Let_def CheckWinner_nonempty_iff IsBoardFull_iff_filled
             split: if_splits)
  show ?thesis using board err written others outcome by simp
qed

theorem MakeMove_applies_move_witness:
  "IsValidMove scenarioStore scenarioGame ''a'' 0 = None \<and>
   cell (Board (snd (snd (MakeMove (\<lambda>_. 0) scenarioStore scenarioGame ''a'' 0)))) 0 = ''X'' \<and>
   Status (snd (snd (MakeMove (\<lambda>_. 0) scenarioStore scenarioGame ''a'' 0))) = STATUS_PLAYING \<and>
   CurrentTurn (snd (snd (MakeMove (\<lambda>_. 0) scenarioStore scenarioGame ''a'' 0))) = ''O'' \<and>
   IsValidMove scenarioStore
     (scenarioGame\<lparr>Board := Cells ''X'' ''X'' [] [] ''O'' ''O'' [] [] []\<rparr>) ''a'' 2 = None \<and>
   Status (snd (snd (MakeMove (\<lambda>_. 0) scenarioStore
     (scenarioGame\<lparr>Board := Cells ''X'' ''X'' [] [] ''O'' ''O'' [] [] []\<rparr>) ''a'' 2)))
     = STATUS_FINISHED \<and>
   CurrentTurn (snd (snd (MakeMove (\<lambda>_. 0) scenarioStore
     (scenarioGame\<lparr>Board := Cells ''X'' ''X'' [] [] ''O'' ''O'' [] [] []\<rparr>) ''a'' 2))) = ''X''"
proof -
  let ?g = "scenarioGame\<lparr>Board := Cells ''X'' ''X'' [] [] ''O'' ''O'' [] [] []\<rparr>"
  let ?r1 = "MakeMove (\<lambda>_. 0) scenarioStore scenarioGame ''a'' 0"
  let ?r2 = "MakeMove (\<lambda>_. 0) scenarioStore ?g ''a'' 2"
  have v1: "IsValidMove scenarioStore scenarioGame ''a'' 0 = None"
    by (simp add: IsValidMove_None_iff scenario_defs)
  have v2: "IsValidMove scenarioStore ?g ''a'' 2 = None"
    by (simp add: IsValidMove_None_iff scenario_defs)
  have r1: "?r1 = (fst ?r1, fst (snd ?r1), snd (snd ?r1))" by simp
  have r2: "?r2 = (fst ?r2, fst (snd ?r2), snd (snd ?r2))" by simp
  note t1 = MakeMove_applies_move [OF v1 r1]
  note t2 = MakeMove_applies_move [OF v2 r2]
  have b1: "Board (snd (snd ?r1)) = Cells ''X'' [] [] [] [] [] [] [] []"
    using t1 by (simp add: scenario_defs)
  have b2: "Board (snd (snd ?r2)) = Cells ''X'' ''X'' ''X'' [] ''O'' ''O'' [] [] []"
    using t2 by (simp add: scenario_defs)
  have n1: "\<not> (hasLine (Board (snd (snd ?r1))) \<or> filled (Board (snd (snd ?r1))) = 9)"
    by (simp add: b1 board_defs)
  have n2: "hasLine (Board (snd (snd ?r2)))"
    by (simp add: b2 board_defs)
  have turn: "CurrentTurn scenarioGame = ''X''" "CurrentTurn ?g = ''X''"
    by (simp_all add: scenario_defs)
  have c1: "cell (Board (snd (snd ?r1))) 0 = ''X''"
    by (simp add: b1)
  have s1: "Status (snd (snd ?r1)) = STATUS_PLAYING \<and> CurrentTurn (snd (snd ?r1)) = ''O''"
    using t1 n1 turn(1) by simp
  have s2: "Status (snd (snd ?r2)) = STATUS_FINISHED \<and> CurrentTurn (snd (snd ?r2)) = ''X''"
    using t2 n2 turn(2) by simp
  show ?thesis
    using v1 v2 c1 s1 s2 by blast
qed

text \<open>
  C5. When MakeMove returns an error, the store of players and the game are exactly what
  they were: board, turn, status, winner, and every counter and rating. A move under an
  identifier that belongs to neither player of the game is always refused so; the error
  is PlayerNotInGame whenever the three earlier checks pass, that is when the game is
  being played and the position is a free cell of the board.
\<close>

theorem MakeMove_error_changes_nothing:
  "(fst (MakeMove impl h game playerID position) = Some err \<longrightarrow>
      MakeMove impl h game playerID position = (Some err, h, game)) \<and>
   (\<not> assigned h (PlayerX game) playerID \<and> \<not> assigned h (PlayerO game) playerID \<longrightarrow>
      (\<exists>e. MakeMove impl h game playerID position = (Some e, h, game))) \<and>
   (\<not> assigned h (PlayerX game) playerID \<and> \<not> assigned h (PlayerO game) playerID \<and>
    Status game = STATUS_PLAYING \<and> 0 \<le> position \<and> position \<le> 8 \<and>
    cell (Board game) (nat position) = [] \<longrightarrow>
      MakeMove impl h game playerID position = (Some PlayerNotInGame, h, game))"
proof (intro conjI impI)
  assume "fst (MakeMove impl h game playerID position) = Some err"
  then have "IsValidMove h game playerID position = Some err"
    by (simp add: MakeMove_fst)
  then show "MakeMove impl h game playerID position = (Some err, h, game)"
    by (rule MakeMove_rejected)
next
  assume "\<not> assigned h (PlayerX game) playerID \<and> \<not> assigned h (PlayerO game) playerID"
  then have "IsValidMove h game playerID position \<noteq> None"
    by (simp add: IsValidMove_None_iff)
  then obtain e where "IsValidMove h game playerID position = Some e" by blast
  then show "\<exists>e. MakeMove impl h game playerID position = (Some e, h, game)"
    using MakeMove_rejected by blast
next
  assume a: "\<not> assigned h (PlayerX game) playerID \<and> \<not> assigned h (PlayerO game) playerID \<and>
    Status game = STATUS_PLAYING \<and> 0 \<le> position \<and> position \<le> 8 \<and>
    cell (Board game) (nat position) = []"
  then have "IsValidMove h game playerID position = Some PlayerNotInGame"
    by (auto simp: IsValidMove_def assigned_def split: option.splits)
  then show "MakeMove impl h game playerID position = (Some PlayerNotInGame, h, game)"
    by (rule MakeMove_rejected)
qed

theorem MakeMove_error_changes_nothing_witness:
  "fst (MakeMove (\<lambda>_. 0) scenarioStore scenarioGame ''b'' 0) = Some NotYourTurn \<and>
   MakeMove (\<lambda>_. 0) scenarioStore scenarioGame ''b'' 0 = (Some NotYourTurn, scenarioStore, scenarioGame) \<and>
   \<not> assigned scenarioStore (PlayerX scenarioGame) ''c'' \<and>
   \<not> assigned scenarioStore (PlayerO scenarioGame) ''c'' \<and>
   Status scenarioGame = STATUS_PLAYING \<and> cell (Board scenarioGame) (nat 4) = [] \<and>
   MakeMove (\<lambda>_. 0) scenarioStore scenarioGame ''c'' 4
     = (Some PlayerNotInGame, scenarioStore, scenarioGame)"
proof -
  have e: "fst (MakeMove (\<lambda>_. 0) scenarioStore scenarioGame ''b'' 0) = Some NotYourTurn"
    by (simp add: MakeMove_fst IsValidMove_def scenario_defs)
  have c: "\<not> assigned scenarioStore (PlayerX scenarioGame) ''c'' \<and>
      \<not> assigned scenarioStore (PlayerO scenarioGame) ''c'' \<and>
      Status scenarioGame = STATUS_PLAYING \<and> (0::int) \<le> 4 \<and> (4::int) \<le> 8 \<and>
      cell (Board scenarioGame) (nat 4) = []"
    by (simp add: scenario_defs)
  show ?thesis
    using e c
      MakeMove_error_changes_nothing
        [where impl = "\<lambda>_. 0" and h = scenarioStore and game = scenarioGame
           and playerID = "''b''" and position = 0 and err = NotYourTurn]
      MakeMove_error_changes_nothing
        [where impl = "\<lambda>_. 0" and h = scenarioStore and game = scenarioGame
           and playerID = "''c''" and position = 4 and err = PlayerNotInGame]
    by blast
qed

section \<open>Counting the cells of a board\<close>

lemma length_cells: "length (cells b) = 9"
  by (cases b) simp

lemma cells_put: "n \<le> 8 \<Longrightarrow> cells (put b n v) = (cells b)[n := v]"
  using index_cases [of n] by (cases b) auto

lemma cell_nth: "n \<le> 8 \<Longrightarrow> cell b n = cells b ! n"
  using index_cases [of n] by (cases b) auto

lemma filter_update_length:
  "n < length xs \<Longrightarrow>
     length (filter P (xs[n := v])) + (if P (xs ! n) then 1 else 0)
       = length (filter P xs) + (if P v then 1 else 0)"
proof (induction xs arbitrary: n)
  case Nil
  then show ?case by simp
next
  case (Cons x xs)
  show ?case
  proof (cases n)
    case 0
    then show ?thesis by simp
  next
    case (Suc m)
    with Cons.prems have "m < length xs" by simp
    from Cons.IH [OF this] show ?thesis using Suc by simp
  qed
qed

lemma countSym_put_same:
  assumes "n \<le> 8" "cell b n = []" "v \<noteq> []"
  shows "countSym v (put b n v) = Suc (countSym v b)"
proof -
  have "n < length (cells b)" using assms(1) by (simp add: length_cells)
  from filter_update_length [OF this, of "\<lambda>c. c = v" v]
  show ?thesis using assms by (simp add: countSym_def cells_put cell_nth [symmetric])
qed

lemma countSym_put_other:
  assumes "n \<le> 8" "cell b n = []" "s \<noteq> v" "s \<noteq> []"
  shows "countSym s (put b n v) = countSym s b"
proof -
  have "n < length (cells b)" using assms(1) by (simp add: length_cells)
  from filter_update_length [OF this, of "\<lambda>c. c = s" v]
  show ?thesis using assms by (simp add: countSym_def cells_put cell_nth [symmetric])
qed

lemma filled_put:
  assumes "n \<le> 8" "cell b n = []" "v \<noteq> []"
  shows "filled (put b n v) = Suc (filled b)"
proof -
  have "n < length (cells b)" using assms(1) by (simp add: length_cells)
  from filter_update_length [OF this, of "\<lambda>c. c \<noteq> []" v]
  show ?thesis using assms by (simp add: filled_def cells_put cell_nth [symmetric])
qed

lemma symbolsOnly_put:
  assumes "n \<le> 8" "symbolsOnly b" "v = ''X'' \<or> v = ''O''"
  shows "symbolsOnly (put b n v)"
proof -
  have "set ((cells b)[n := v]) \<subseteq> insert v (set (cells b))"
    by (rule set_update_subset_insert)
  then show ?thesis
    using assms by (auto simp: symbolsOnly_def cells_put list_all_iff)
qed

lemma filter_three_way:
  "list_all (\<lambda>c. c = [] \<or> c = ''X'' \<or> c = ''O'') xs \<Longrightarrow>
     length (filter (\<lambda>c. c \<noteq> []) xs)
       = length (filter (\<lambda>c. c = ''X'') xs) + length (filter (\<lambda>c. c = ''O'') xs)"
  by (induction xs) auto

lemma filled_eq_counts: "symbolsOnly b \<Longrightarrow> filled b = countSym ''X'' b + countSym ''O'' b"
  by (simp add: symbolsOnly_def filled_def countSym_def filter_three_way)

lemma symbolsOnly_cell:
  assumes "symbolsOnly b" "n \<le> 8"
  shows "cell b n = [] \<or> cell b n = ''X'' \<or> cell b n = ''O''"
proof -
  have "cells b ! n \<in> set (cells b)" using assms(2) by (simp add: length_cells)
  then show ?thesis using assms by (auto simp: symbolsOnly_def list_all_iff cell_nth)
qed

lemma three_distinct_positions:
  assumes "i < j" "j < k" "k < length xs" "xs ! i = s" "xs ! j = s" "xs ! k = s"
  shows "3 \<le> length (filter (\<lambda>c. c = s) xs)"
proof -
  have "{i, j, k} \<subseteq> {n. n < length xs \<and> xs ! n = s}" using assms by auto
  moreover have "card {i, j, k} = 3" using assms by simp
  moreover have "finite {n. n < length xs \<and> xs ! n = s}" by simp
  ultimately have "3 \<le> card {n. n < length xs \<and> xs ! n = s}"
    by (metis card_mono)
  then show ?thesis by (simp add: length_filter_conv_card)
qed

lemma lineComplete_count:
  assumes "l \<in> set (rows @ columns @ diagonals)" "lineComplete b l"
  shows "3 \<le> countSym (cell b (fst l)) b"
proof -
  obtain i j k where l: "l = (i, j, k)" by (cases l)
  have ord: "i < j" "j < k" "k \<le> 8"
    using assms(1) unfolding lines_eq l by auto
  have eq: "cell b j = cell b i" "cell b k = cell b i"
    using assms(2) by (simp_all add: lineComplete_def l)
  have "3 \<le> length (filter (\<lambda>c. c = cell b i) (cells b))"
    by (rule three_distinct_positions [of i j k])
       (use ord eq in \<open>simp_all add: length_cells cell_nth\<close>)
  then show ?thesis by (simp add: countSym_def l)
qed

lemma filled_le_9: "filled b \<le> 9"
  using length_filter_le [of "\<lambda>c. c \<noteq> []" "cells b"] by (simp add: filled_def length_cells)

section \<open>Games in play stay well formed\<close>

lemma CheckWinner_symbol:
  assumes "symbolsOnly b" "CheckWinner b \<noteq> []"
  shows "(CheckWinner b = ''X'' \<or> CheckWinner b = ''O'') \<and> 3 \<le> countSym (CheckWinner b) b"
proof -
  from assms(2) obtain l where l: "l \<in> set (rows @ columns @ diagonals)"
      "lineComplete b l" "CheckWinner b = cell b (fst l)"
    using scanCombos_result [of b winningCombos]
    by (auto simp: CheckWinner_def lines_are_winningCombos)
  have "fst l \<le> 8" using l(1) unfolding lines_eq by auto
  from symbolsOnly_cell [OF assms(1) this] assms(2) l(3)
  have "CheckWinner b = ''X'' \<or> CheckWinner b = ''O''" by simp
  moreover have "3 \<le> countSym (CheckWinner b) b"
    using lineComplete_count [OF l(1,2)] l(3) by simp
  ultimately show ?thesis by simp
qed

lemma wellFormed_MakeMove:
  assumes wf: "wellFormed g" and mm: "MakeMove impl h g playerID position = (err, h', g')"
  shows "wellFormed g' \<and>
         (err = None \<longrightarrow> filled (Board g') = Suc (filled (Board g))) \<and>
         (err \<noteq> None \<longrightarrow> g' = g \<and> h' = h)"
proof (cases "IsValidMove h g playerID position")
  case (Some e)
  have "MakeMove impl h g playerID position = (Some e, h, g)"
    using Some by (rule MakeMove_rejected)
  with mm have "err = Some e" "h' = h" "g' = g" by simp_all
  then show ?thesis using wf by simp
next
  case None
  let ?t = "CurrentTurn g"
  let ?n = "nat position"
  let ?b = "put (Board g) ?n ?t"
  from None have valid: "Status g = STATUS_PLAYING" "?n \<le> 8" "cell (Board g) ?n = []"
      "?t = ''X'' \<or> ?t = ''O''"
    by (auto simp: IsValidMove_None_iff split: if_splits)
  from wf valid(1) have inv: "symbolsOnly (Board g)" "Winner g = []"
      "if ?t = ''X'' then countSym ''X'' (Board g) = countSym ''O'' (Board g)
       else countSym ''X'' (Board g) = Suc (countSym ''O'' (Board g))"
    by (auto simp: wellFormed_def split: if_splits)
  have tne: "?t \<noteq> []" using valid(4) by auto
  have sym: "symbolsOnly ?b"
    using valid(2) inv(1) valid(4) by (rule symbolsOnly_put)
  have fill: "filled ?b = Suc (filled (Board g))"
    using valid(2,3) tne by (rule filled_put)
  have counts:
    "if ?t = ''X''
     then countSym ''X'' ?b = Suc (countSym ''O'' ?b)
     else countSym ''X'' ?b = countSym ''O'' ?b"
  proof (cases "?t = ''X''")
    case True
    have "countSym ''X'' ?b = Suc (countSym ''X'' (Board g))"
      using countSym_put_same [OF valid(2,3) tne] True by simp
    moreover have "countSym ''O'' ?b = countSym ''O'' (Board g)"
      using countSym_put_other [OF valid(2,3), of "''O''" ?t] True by simp
    ultimately show ?thesis using inv(3) True by simp
  next
    case False
    then have t: "?t = ''O''" using valid(4) by simp
    have "countSym ''O'' ?b = Suc (countSym ''O'' (Board g))"
      using countSym_put_same [OF valid(2,3) tne] t by simp
    moreover have "countSym ''X'' ?b = countSym ''X'' (Board g)"
      using countSym_put_other [OF valid(2,3), of "''X''" ?t] t by simp
    ultimately show ?thesis using inv(3) t by simp
  qed
  have mm': "MakeMove impl h g playerID position =
     (case evaluateTermination ?b of
        WinnerIs w \<Rightarrow>
          (None, updatePlayerStats impl h (g\<lparr>Board := ?b, Status := STATUS_FINISHED, Winner := w\<rparr>),
           g\<lparr>Board := ?b, Status := STATUS_FINISHED, Winner := w\<rparr>)
      | Draw \<Rightarrow>
          (None,
           updatePlayerStats impl h (g\<lparr>Board := ?b, Status := STATUS_FINISHED, Winner := ''draw''\<rparr>),
           g\<lparr>Board := ?b, Status := STATUS_FINISHED, Winner := ''draw''\<rparr>)
      | NoOutcome \<Rightarrow>
          (None, h, g\<lparr>Board := ?b, CurrentTurn := (if ?t = ''X'' then ''O'' else ''X'')\<rparr>))"
    using MakeMove_accepted [OF None, of impl] by (simp add: Let_def)
  have ne: "STATUS_FINISHED \<noteq> STATUS_PLAYING"
    by (simp add: STATUS_FINISHED_def STATUS_PLAYING_def)
  show ?thesis
  proof (cases "evaluateTermination ?b")
    case NoOutcome
    then have g': "g' = g\<lparr>Board := ?b, CurrentTurn := (if ?t = ''X'' then ''O'' else ''X'')\<rparr>"
      and "err = None"
      using mm mm' by simp_all
    then show ?thesis
      using sym fill counts valid(1,4) inv(2) by (auto simp: wellFormed_def)
  next
    case (WinnerIs w)
    then have w: "w = CheckWinner ?b" "CheckWinner ?b \<noteq> []"
      by (auto simp: evaluateTermination_def Let_def split: if_splits)
    from CheckWinner_symbol [OF sym w(2)] w(1) have "w = ''X'' \<or> w = ''O''" by simp
    moreover from WinnerIs have "g' = g\<lparr>Board := ?b, Status := STATUS_FINISHED, Winner := w\<rparr>"
      and "err = None"
      using mm mm' by simp_all
    ultimately show ?thesis
      using sym fill counts ne by (auto simp: wellFormed_def split: if_splits)
  next
    case Draw
    then have "g' = g\<lparr>Board := ?b, Status := STATUS_FINISHED, Winner := ''draw''\<rparr>"
      and "err = None"
      using mm mm' by simp_all
    then show ?thesis
      using sym fill counts ne by (auto simp: wellFormed_def split: if_splits)
  qed
qed

lemma wellFormed_applyMoves:
  "wellFormed g \<Longrightarrow> applyMoves impl h g ms = (h', g', n) \<Longrightarrow>
     wellFormed g' \<and> filled (Board g') = filled (Board g) + n"
proof (induction ms arbitrary: h g n)
  case Nil
  then show ?case by simp
next
  case (Cons m ms)
  obtain playerID position where m: "m = (playerID, position)" by (cases m)
  obtain err h1 g1 where mm: "MakeMove impl h g playerID position = (err, h1, g1)"
    by (cases "MakeMove impl h g playerID position")
  note step = wellFormed_MakeMove [OF Cons.prems(1) mm]
  show ?case
  proof (cases err)
    case None
    obtain h2 g2 k where rest: "applyMoves impl h1 g1 ms = (h2, g2, k)"
      by (cases "applyMoves impl h1 g1 ms")
    with Cons.prems(2) m mm None have eq: "h2 = h'" "g2 = g'" "n = Suc k" by simp_all
    have "wellFormed g' \<and> filled (Board g') = filled (Board g1) + k"
      using Cons.IH [where g = g1 and h = h1 and n = k] step rest eq by simp
    then show ?thesis using step None eq by simp
  next
    case (Some e)
    with Cons.prems(2) m mm have rest: "applyMoves impl h1 g1 ms = (h', g', n)" by simp
    from step Some have same: "g1 = g" "wellFormed g1" by blast+
    from Cons.IH [OF same(2) rest] same(1) show ?thesis by simp
  qed
qed

lemma wellFormed_new_match:
  "wellFormed ((NewGame uuid)\<lparr>PlayerX := px, PlayerO := po, Status := STATUS_PLAYING\<rparr>)"
  by (simp add: wellFormed_def NewGame_def symbolsOnly_def countSym_def)

lemma wellFormed_line_needs_five:
  assumes "wellFormed g" "hasLine (Board g)"
  shows "5 \<le> filled (Board g)"
proof -
  let ?b = "Board g"
  have sym: "symbolsOnly ?b" using assms(1) by (simp add: wellFormed_def)
  have bal: "countSym ''X'' ?b = countSym ''O'' ?b \<or> countSym ''X'' ?b = Suc (countSym ''O'' ?b)"
    using assms(1) by (auto simp: wellFormed_def split: if_splits)
  have "CheckWinner ?b \<noteq> []" using assms(2) by (simp add: CheckWinner_nonempty_iff)
  from CheckWinner_symbol [OF sym this]
  have "3 \<le> countSym ''X'' ?b \<or> 3 \<le> countSym ''O'' ?b" by auto
  then show ?thesis using bal by (auto simp: filled_eq_counts [OF sym])
qed

lemmas engine_defs =
  MakeMove_def IsValidMove_def CheckWinner_def winningCombos_def IsBoardFull_def Let_def

lemma scenario_run:
  "snd (applyMoves impl scenarioStore scenarioGame scenarioMoves) =
     (scenarioGame\<lparr>Board := Cells ''X'' ''X'' ''X'' [] ''O'' ''O'' [] [] [],
                   Status := STATUS_FINISHED, Winner := ''X''\<rparr>, 5)"
  by (simp add: scenarioMoves_def engine_defs scenario_defs)

lemma scenario_run_full:
  "applyMoves impl scenarioStore
     ((NewGame ''g'')\<lparr>PlayerX := Some 0, PlayerO := Some 1, Status := STATUS_PLAYING\<rparr>)
     scenarioMoves =
     (fst (applyMoves impl scenarioStore scenarioGame scenarioMoves),
      scenarioGame\<lparr>Board := Cells ''X'' ''X'' ''X'' [] ''O'' ''O'' [] [] [],
                    Status := STATUS_FINISHED, Winner := ''X''\<rparr>, 5)"
  using scenario_run [of impl] unfolding scenarioGame_def [symmetric]
  by (metis prod.collapse)

section \<open>Termination\<close>

lemma evaluateTermination_WinnerIs:
  "evaluateTermination b = WinnerIs w \<longleftrightarrow> w = CheckWinner b \<and> CheckWinner b \<noteq> []"
  by (auto simp: evaluateTermination_def Let_def)

lemma evaluateTermination_Draw:
  "evaluateTermination b = Draw \<longleftrightarrow> CheckWinner b = [] \<and> IsBoardFull b"
  by (auto simp: evaluateTermination_def Let_def)

lemma evaluateTermination_NoOutcome:
  "evaluateTermination b = NoOutcome \<longleftrightarrow> CheckWinner b = [] \<and> \<not> IsBoardFull b"
  by (auto simp: evaluateTermination_def Let_def)

lemma MakeMove_reports:
  assumes "IsValidMove h game playerID position = None"
  shows "case evaluateTermination (Board (snd (snd (MakeMove impl h game playerID position)))) of
           WinnerIs w \<Rightarrow>
             Status (snd (snd (MakeMove impl h game playerID position))) = STATUS_FINISHED \<and>
             Winner (snd (snd (MakeMove impl h game playerID position))) = w
         | Draw \<Rightarrow>
             Status (snd (snd (MakeMove impl h game playerID position))) = STATUS_FINISHED \<and>
             Winner (snd (snd (MakeMove impl h game playerID position))) = ''draw''
         | NoOutcome \<Rightarrow>
             Status (snd (snd (MakeMove impl h game playerID position))) = Status game \<and>
             Winner (snd (snd (MakeMove impl h game playerID position))) = Winner game"
  by (cases "evaluateTermination (put (Board game) (nat position) (CurrentTurn game))")
     (simp_all add: MakeMove_accepted [OF assms] Let_def)

text \<open>
  C4. The termination test of MakeMove (CheckWinner, then IsBoardFull) reports a winner
  exactly when one of the eight lines (three rows, three columns, two diagonals) holds
  three equal non-empty cells, and the winner is the symbol of such a line; it reports a
  draw exactly when all nine cells are filled and no line is complete, and nothing
  otherwise. MakeMove records that result in the status and the winner of the game. In
  a game started by a match, after any sequence of submitted moves of which \<open>n\<close> were
  accepted, \<open>n\<close> cells are filled, so a winner is never reported before five moves have
  been played, and a draw only after nine.
\<close>

theorem evaluateTermination_reports:
  "((\<exists>w. evaluateTermination b = WinnerIs w) \<longleftrightarrow> hasLine b) \<and>
   (\<forall>w. evaluateTermination b = WinnerIs w \<longrightarrow>
      w \<noteq> [] \<and> (\<exists>l \<in> set (rows @ columns @ diagonals). lineComplete b l \<and> w = cell b (fst l))) \<and>
   (evaluateTermination b = Draw \<longleftrightarrow> filled b = 9 \<and> \<not> hasLine b) \<and>
   (evaluateTermination b = NoOutcome \<longleftrightarrow> filled b < 9 \<and> \<not> hasLine b) \<and>
   (IsValidMove h game playerID position = None \<longrightarrow>
      (case evaluateTermination (Board (snd (snd (MakeMove impl h game playerID position)))) of
         WinnerIs w \<Rightarrow>
           Status (snd (snd (MakeMove impl h game playerID position))) = STATUS_FINISHED \<and>
           Winner (snd (snd (MakeMove impl h game playerID position))) = w
       | Draw \<Rightarrow>
           Status (snd (snd (MakeMove impl h game playerID position))) = STATUS_FINISHED \<and>
           Winner (snd (snd (MakeMove impl h game playerID position))) = ''draw''
       | NoOutcome \<Rightarrow>
           Status (snd (snd (MakeMove impl h game playerID position))) = Status game \<and>
           Winner (snd (snd (MakeMove impl h game playerID position))) = Winner game)) \<and>
   (applyMoves impl h
      ((NewGame uuid)\<lparr>PlayerX := Some pX, PlayerO := Some pO, Status := STATUS_PLAYING\<rparr>)
      ms = (h', g', n) \<longrightarrow>
      filled (Board g') = n \<and>
      ((\<exists>w. evaluateTermination (Board g') = WinnerIs w) \<longrightarrow> 5 \<le> n) \<and>
      (evaluateTermination (Board g') = Draw \<longrightarrow> n = 9))"
proof -
  have p1: "(\<exists>w. evaluateTermination b = WinnerIs w) \<longleftrightarrow> hasLine b"
    by (simp add: evaluateTermination_WinnerIs CheckWinner_nonempty_iff)
  have p2: "\<forall>w. evaluateTermination b = WinnerIs w \<longrightarrow>
      w \<noteq> [] \<and> (\<exists>l \<in> set (rows @ columns @ diagonals). lineComplete b l \<and> w = cell b (fst l))"
    using scanCombos_result [of b winningCombos]
    by (auto simp: evaluateTermination_WinnerIs CheckWinner_def lines_are_winningCombos)
  have p3: "evaluateTermination b = Draw \<longleftrightarrow> filled b = 9 \<and> \<not> hasLine b"
    using CheckWinner_nonempty_iff [of b]
    by (auto simp: evaluateTermination_Draw IsBoardFull_iff_filled)
  have p4: "evaluateTermination b = NoOutcome \<longleftrightarrow> filled b < 9 \<and> \<not> hasLine b"
    using CheckWinner_nonempty_iff [of b] filled_le_9 [of b]
    by (auto simp: evaluateTermination_NoOutcome IsBoardFull_iff_filled)
  have p5: "IsValidMove h game playerID position = None \<longrightarrow>
      (case evaluateTermination (Board (snd (snd (MakeMove impl h game playerID position)))) of
         WinnerIs w \<Rightarrow>
           Status (snd (snd (MakeMove impl h game playerID position))) = STATUS_FINISHED \<and>
           Winner (snd (snd (MakeMove impl h game playerID position))) = w
       | Draw \<Rightarrow>
           Status (snd (snd (MakeMove impl h game playerID position))) = STATUS_FINISHED \<and>
           Winner (snd (snd (MakeMove impl h game playerID position))) = ''draw''
       | NoOutcome \<Rightarrow>
           Status (snd (snd (MakeMove impl h game playerID position))) = Status game \<and>
           Winner (snd (snd (MakeMove impl h game playerID position))) = Winner game)"
    using MakeMove_reports by blast
  have p6: "filled (Board g') = n \<and>
      ((\<exists>w. evaluateTermination (Board g') = WinnerIs w) \<longrightarrow> 5 \<le> n) \<and>
      (evaluateTermination (Board g') = Draw \<longrightarrow> n = 9)"
    if run: "applyMoves impl h
      ((NewGame uuid)\<lparr>PlayerX := Some pX, PlayerO := Some pO, Status := STATUS_PLAYING\<rparr>)
      ms = (h', g', n)"
  proof -
    from wellFormed_applyMoves [OF wellFormed_new_match run]
    have wf: "wellFormed g'" and cnt: "filled (Board g') = n"
      by (simp_all add: NewGame_def filled_def)
    have "5 \<le> n" if "\<exists>w. evaluateTermination (Board g') = WinnerIs w"
    proof -
      from that have "hasLine (Board g')"
        by (simp add: evaluateTermination_WinnerIs CheckWinner_nonempty_iff)
      from wellFormed_line_needs_five [OF wf this] cnt show ?thesis by simp
    qed
    moreover have "n = 9" if "evaluateTermination (Board g') = Draw"
      using that cnt by (simp add: evaluateTermination_Draw IsBoardFull_iff_filled)
    ultimately show ?thesis using cnt by blast
  qed
  show ?thesis using p1 p2 p3 p4 p5 p6 by blast
qed

theorem evaluateTermination_reports_witness:
  "hasLine (Cells ''X'' ''X'' ''X'' [] ''O'' ''O'' [] [] []) \<and>
   (\<exists>w. evaluateTermination (Cells ''X'' ''X'' ''X'' [] ''O'' ''O'' [] [] []) = WinnerIs w) \<and>
   filled (Cells ''X'' ''O'' ''X'' ''X'' ''O'' ''O'' ''O'' ''X'' ''X'') = 9 \<and>
   \<not> hasLine (Cells ''X'' ''O'' ''X'' ''X'' ''O'' ''O'' ''O'' ''X'' ''X'') \<and>
   evaluateTermination (Cells ''X'' ''O'' ''X'' ''X'' ''O'' ''O'' ''O'' ''X'' ''X'') = Draw \<and>
   filled (Cells ''X'' [] [] [] [] [] [] [] []) < 9 \<and>
   \<not> hasLine (Cells ''X'' [] [] [] [] [] [] [] []) \<and>
   evaluateTermination (Cells ''X'' [] [] [] [] [] [] [] []) = NoOutcome \<and>
   IsValidMove scenarioStore scenarioGame ''a'' 0 = None \<and>
   Status (snd (snd (MakeMove (\<lambda>_. 0) scenarioStore scenarioGame ''a'' 0))) = STATUS_PLAYING \<and>
   snd (applyMoves (\<lambda>_. 0) scenarioStore scenarioGame scenarioMoves) =
     (scenarioGame\<lparr>Board := Cells ''X'' ''X'' ''X'' [] ''O'' ''O'' [] [] [],
                   Status := STATUS_FINISHED, Winner := ''X''\<rparr>, 5) \<and>
   filled (Board (scenarioGame\<lparr>Board := Cells ''X'' ''X'' ''X'' [] ''O'' ''O'' [] [] [],
                   Status := STATUS_FINISHED, Winner := ''X''\<rparr>)) = 5"
proof -
  let ?win = "Cells ''X'' ''X'' ''X'' [] ''O'' ''O'' [] [] []"
  let ?draw = "Cells ''X'' ''O'' ''X'' ''X'' ''O'' ''O'' ''O'' ''X'' ''X''"
  let ?open = "Cells ''X'' [] [] [] [] [] [] [] []"
  let ?final = "scenarioGame\<lparr>Board := ?win, Status := STATUS_FINISHED, Winner := ''X''\<rparr>"
  have w: "hasLine ?win" by (simp add: board_defs)
  have d: "filled ?draw = 9 \<and> \<not> hasLine ?draw" by (simp add: board_defs)
  have n: "filled ?open < 9 \<and> \<not> hasLine ?open" by (simp add: board_defs)
  have v: "IsValidMove scenarioStore scenarioGame ''a'' 0 = None"
    by (simp add: IsValidMove_None_iff scenario_defs)
  have b1: "Board (snd (snd (MakeMove (\<lambda>_. 0) scenarioStore scenarioGame ''a'' 0))) = ?open"
    by (simp add: MakeMove_accepted [OF v] evaluateTermination_NoOutcome engine_defs scenario_defs)
  have st: "Status scenarioGame = STATUS_PLAYING" by (simp add: scenario_defs)
  note t1 = evaluateTermination_reports
    [where b = ?win and h = scenarioStore and game = scenarioGame and playerID = "''a''"
       and position = 0 and impl = "\<lambda>_. 0" and uuid = "''g''" and pX = 0 and pO = 1
       and ms = scenarioMoves
       and h' = "fst (applyMoves (\<lambda>_. 0) scenarioStore scenarioGame scenarioMoves)"
       and g' = ?final and n = 5]
  note t2 = evaluateTermination_reports [where b = ?draw]
  note t3 = evaluateTermination_reports [where b = ?open]
  have e1: "\<exists>w. evaluateTermination ?win = WinnerIs w"
    using t1 w by blast
  have e2: "evaluateTermination ?draw = Draw" using t2 d by blast
  have e3: "evaluateTermination ?open = NoOutcome" using t3 n by blast
  have s: "Status (snd (snd (MakeMove (\<lambda>_. 0) scenarioStore scenarioGame ''a'' 0))) = STATUS_PLAYING"
    using t1 v b1 e3 st by simp
  have f: "filled (Board ?final) = 5"
    using t1 scenario_run_full [of "\<lambda>_. 0"] by blast
  show ?thesis
    using w d n v e1 e2 e3 s f scenario_run [of "\<lambda>_. 0"] by simp
qed

text \<open>
  C8. In a game started by a match (NewGame, then the two players and the status
  \<^verbatim>\<open>playing\<close>), after any sequence of calls of MakeMove, accepted or refused, the
  winner is set if and only if the status is \<^verbatim>\<open>finished\<close>, and a winner that is set is
  X, O or draw.
\<close>

theorem winner_iff_finished:
  assumes "applyMoves impl h
      ((NewGame uuid)\<lparr>PlayerX := Some pX, PlayerO := Some pO, Status := STATUS_PLAYING\<rparr>)
      ms = (h', g', n)"
  shows "(Winner g' \<noteq> [] \<longleftrightarrow> Status g' = STATUS_FINISHED) \<and>
         (Winner g' \<noteq> [] \<longrightarrow> Winner g' = ''X'' \<or> Winner g' = ''O'' \<or> Winner g' = ''draw'') \<and>
         (Status g' = STATUS_PLAYING \<or> Status g' = STATUS_FINISHED)"
proof -
  from wellFormed_applyMoves [OF wellFormed_new_match assms]
  have "wellFormed g'" by simp
  then show ?thesis
    by (auto simp: wellFormed_def STATUS_FINISHED_def STATUS_PLAYING_def split: if_splits)
qed

theorem winner_iff_finished_witness:
  "applyMoves (\<lambda>_. 0) scenarioStore
     ((NewGame ''g'')\<lparr>PlayerX := Some 0, PlayerO := Some 1, Status := STATUS_PLAYING\<rparr>)
     scenarioMoves =
     (fst (applyMoves (\<lambda>_. 0) scenarioStore scenarioGame scenarioMoves),
      scenarioGame\<lparr>Board := Cells ''X'' ''X'' ''X'' [] ''O'' ''O'' [] [] [],
                    Status := STATUS_FINISHED, Winner := ''X''\<rparr>, 5) \<and>
   Winner (scenarioGame\<lparr>Board := Cells ''X'' ''X'' ''X'' [] ''O'' ''O'' [] [] [],
                    Status := STATUS_FINISHED, Winner := ''X''\<rparr>) \<noteq> [] \<and>
   Status (scenarioGame\<lparr>Board := Cells ''X'' ''X'' ''X'' [] ''O'' ''O'' [] [] [],
                    Status := STATUS_FINISHED, Winner := ''X''\<rparr>) = STATUS_FINISHED"
  using winner_iff_finished [OF scenario_run_full [of "\<lambda>_. 0"]] scenario_run_full [of "\<lambda>_. 0"]
  by simp

section \<open>Ratings\<close>

text \<open>
  What updateRating does on every input: both ratings end at 0 or above, whatever the
  two changes are; and as long as the expected score is finite, that is unless
  \<open>(ratingO - ratingX) / 400\<close> is \<open>-11\<close>, the two changes are opposite, in a
  draw and in a decisive game alike, since the conversion to \<^verbatim>\<open>int\<close> truncates
  towards zero on both sides.
\<close>

lemma updateRating_floors_at_zero:
  "0 \<le> Rating (updateRating impl h playerX playerO score playerX) \<and>
   0 \<le> Rating (updateRating impl h playerX playerO score playerO)"
  by (simp add: updateRating_def Let_def)

lemma truncToZero_minus: "truncToZero (- r) = - truncToZero r"
  by (auto simp: truncToZero_def ceiling_def)

lemma truncToZero_bound: "\<bar>r\<bar> \<le> of_int k \<Longrightarrow> \<bar>truncToZero r\<bar> \<le> k"
  unfolding truncToZero_def by (auto simp: abs_if floor_le_iff le_ceiling_iff ceiling_le_iff le_floor_iff split: if_splits) linarith+

lemma toInt_small:
  assumes "\<bar>truncToZero r\<bar> \<le> 64"
  shows "toInt impl (Fin r) = truncToZero r"
proof -
  have "(64::int) < 2 ^ 63" by simp
  with assms have "- (2 ^ 63) \<le> truncToZero r \<and> truncToZero r < 2 ^ 63" by linarith
  then show ?thesis by (simp only: toInt.simps simp_thms if_True)
qed

lemma expectedX_cases:
  "expectedX ratingX ratingO = PInf \<and> quo (ratingO - ratingX) 400 = - 11 \<or>
   (\<exists>e. expectedX ratingX ratingO = Fin e \<and> \<bar>e\<bar> \<le> 1)"
proof (cases "1 + real_of_int (10 XOR quo (ratingO - ratingX) 400) = 0")
  case True
  then have "10 XOR quo (ratingO - ratingX) 400 = - 1"
    by linarith
  then have "10 XOR (10 XOR quo (ratingO - ratingX) 400) = 10 XOR (- 1)" by simp
  then have "quo (ratingO - ratingX) 400 = - 11"
    by (simp add: xor.assoc [symmetric])
  then show ?thesis using True by (simp add: expectedX_def)
next
  case False
  let ?n = "10 XOR quo (ratingO - ratingX) 400"
  have "1 + ?n \<noteq> 0" using False by linarith
  then have "1 \<le> \<bar>1 + ?n\<bar>" by linarith
  then have "1 \<le> \<bar>1 + real_of_int ?n\<bar>" by linarith
  then have "\<bar>1 / (1 + real_of_int ?n)\<bar> \<le> 1" by (simp add: field_simps)
  then show ?thesis using False by (simp add: expectedX_def)
qed

lemma ratingChanges_sum_zero:
  assumes "expectedX ratingX ratingO = Fin e" "s = 0 \<or> s = 1 / 2 \<or> s = 1"
  shows "ratingChangeX impl ratingX ratingO (Fin s) + ratingChangeO impl ratingX ratingO (Fin s) = 0"
proof -
  have e: "\<bar>e\<bar> \<le> 1" using expectedX_cases [of ratingX ratingO] assms(1) by auto
  let ?x = "32 * (s - e)"
  have "\<bar>s - e\<bar> \<le> 2" using e assms(2) by auto
  then have "\<bar>?x\<bar> \<le> of_int 64" by (simp add: abs_mult)
  then have b: "\<bar>truncToZero ?x\<bar> \<le> 64" by (rule truncToZero_bound)
  have o: "32 * ((1 - s) - (1 - e)) = - ?x" by simp
  have b': "\<bar>truncToZero (- ?x)\<bar> \<le> 64" using b by (simp only: truncToZero_minus abs_minus_cancel)
  have "ratingChangeX impl ratingX ratingO (Fin s) = toInt impl (Fin ?x)"
    by (simp add: ratingChangeX_def assms(1) fsub_def)
  then have cx: "ratingChangeX impl ratingX ratingO (Fin s) = truncToZero ?x"
    by (simp only: toInt_small [OF b])
  have "ratingChangeO impl ratingX ratingO (Fin s) = toInt impl (Fin (32 * ((1 - s) - (1 - e))))"
    by (simp add: ratingChangeO_def assms(1) fsub_def)
  then have "ratingChangeO impl ratingX ratingO (Fin s) = toInt impl (Fin (- ?x))"
    by (simp only: o)
  then have co: "ratingChangeO impl ratingX ratingO (Fin s) = - truncToZero ?x"
    by (simp only: toInt_small [OF b'] truncToZero_minus)
  show ?thesis by (simp add: cx co)
qed

text \<open>
  C1. The specification computes the expected score of X as
  \<open>1 / (1 + 10 powr ((ratingO - ratingX) / 400))\<close> and each change as
  \<open>round (32 * (actualOwn - expectedOwn))\<close>. updateRating computes
  \<open>1 / (1 + (10 XOR q))\<close>, with \<open>q\<close> the integer quotient of \<open>ratingO - ratingX\<close> by 400, and
  truncates. At equal ratings of
  1000 and a win of X the specification's expected score is 1/2 and the changes are 16
  and -16; the code's expected score is 1/11, its changes are 29 and -29, and the ratings
  become 1029 and 971.
\<close>

theorem updateRating_equal_ratings:
  "expectedX 1000 1000 = Fin (1 / 11) \<and> specExpectedX 1000 1000 = 1 / 2 \<and>
   ratingChangeX impl 1000 1000 (Fin 1) = 29 \<and> specDelta 1 (specExpectedX 1000 1000) = 16 \<and>
   ratingChangeO impl 1000 1000 (Fin 1) = - 29 \<and>
   specDelta 0 (1 - specExpectedX 1000 1000) = - 16 \<and>
   Rating (updateRating impl scenarioStore 0 1 (Fin 1) 0) = 1029 \<and>
   Rating (updateRating impl scenarioStore 0 1 (Fin 1) 1) = 971"
proof -
  have e: "expectedX 1000 1000 = Fin (1 / 11)" by (simp add: expectedX_def quo_def)
  have s: "specExpectedX 1000 1000 = 1 / 2" by (simp add: specExpectedX_def)
  have cx: "ratingChangeX impl 1000 1000 (Fin 1) = 29"
    by (simp add: ratingChangeX_def e fsub_def truncToZero_def)
  have co: "ratingChangeO impl 1000 1000 (Fin 1) = - 29"
    by (simp add: ratingChangeO_def e fsub_def truncToZero_def)
  have dx: "specDelta 1 (specExpectedX 1000 1000) = 16" by (simp add: specDelta_def s)
  have do: "specDelta 0 (1 - specExpectedX 1000 1000) = - 16"
    by (simp add: specDelta_def s round_def)
  have r: "Rating (scenarioStore 0) = 1000" "Rating (scenarioStore (Suc 0)) = 1000"
    by (simp_all add: scenarioStore_def NewPlayer_def)
  have u: "Rating (updateRating impl scenarioStore 0 1 (Fin 1) 0) = 1029 \<and>
      Rating (updateRating impl scenarioStore 0 1 (Fin 1) 1) = 971"
    by (simp add: updateRating_def Let_def r cx co)
  show ?thesis using e s cx co dx do u by simp
qed

text \<open>
  C9. A draw between X rated 4400 and O rated 0: the quotient is -11, \<open>10 XOR -11\<close> is
  -1, and the expected score is \<open>1.0 / 0.0\<close>, positive infinity. The change of X is the
  conversion of negative infinity to \<^verbatim>\<open>int\<close> and the change of O that of positive
  infinity, both left to the implementation; where both give \<open>-2^63\<close>, as the
  conversion instruction of amd64 does, the two changes do not sum to zero and a draw
  takes the rating of X from 4400 to 0.
\<close>

theorem draw_with_infinite_expected_score:
  "Rating (lopsidedStore 0) = 4400 \<and> Rating (lopsidedStore 1) = 0 \<and>
   expectedX 4400 0 = PInf \<and>
   ratingChangeX impl 4400 0 (Fin (1 / 2)) = impl NInf \<and>
   ratingChangeO impl 4400 0 (Fin (1 / 2)) = impl PInf \<and>
   ratingChangeX (\<lambda>_. - (2 ^ 63)) 4400 0 (Fin (1 / 2))
     + ratingChangeO (\<lambda>_. - (2 ^ 63)) 4400 0 (Fin (1 / 2)) \<noteq> 0 \<and>
   Rating (updatePlayerStats (\<lambda>_. - (2 ^ 63)) lopsidedStore drawnGame 0) = 0 \<and>
   Rating (updatePlayerStats (\<lambda>_. - (2 ^ 63)) lopsidedStore drawnGame 1) = 0"
proof -
  have r: "Rating (lopsidedStore 0) = 4400" "Rating (lopsidedStore (Suc 0)) = 0"
    by (simp_all add: lopsidedStore_def)
  have e: "expectedX 4400 0 = PInf" by (simp add: expectedX_def quo_def)
  have cx: "ratingChangeX impl 4400 0 (Fin (1 / 2)) = impl NInf" for impl
    by (simp add: ratingChangeX_def e fsub_def)
  have co: "ratingChangeO impl 4400 0 (Fin (1 / 2)) = impl PInf" for impl
    by (simp add: ratingChangeO_def e fsub_def)
  have ne: "ratingChangeX (\<lambda>_. - (2 ^ 63)) 4400 0 (Fin (1 / 2))
     + ratingChangeO (\<lambda>_. - (2 ^ 63)) 4400 0 (Fin (1 / 2)) \<noteq> 0"
    by (simp add: cx co)
  have g: "PlayerX drawnGame = Some 0" "PlayerO drawnGame = Some 1" "Winner drawnGame = ''draw''"
    by (simp_all add: drawnGame_def scenarioGame_def)
  have u: "Rating (updatePlayerStats (\<lambda>_. - (2 ^ 63)) lopsidedStore drawnGame 0) = 0 \<and>
      Rating (updatePlayerStats (\<lambda>_. - (2 ^ 63)) lopsidedStore drawnGame 1) = 0"
    by (simp add: updatePlayerStats_def updateRating_def Let_def g r cx co)
  show ?thesis using r e cx co ne u by simp
qed

section \<open>The mutex and the match\<close>

text \<open>
  With the write lock free every sender returns and leaves the server as it is. A call of
  createMatch that finds two registered players stores their game and then waits in
  sendToPlayer if the write lock is held, as it is when handleJoinQueue calls it: the
  join that makes a match never returns and leaves the lock held.
\<close>

lemma Lock_held: "mutex gs \<Longrightarrow> Lock gs = Blocks gs"
  by (simp add: Lock_def)

lemma Lock_free: "\<not> mutex gs \<Longrightarrow> Lock gs = Returns (gs\<lparr>mutex := True\<rparr>)"
  by (simp add: Lock_def)

lemma released: "\<not> mutex gs \<Longrightarrow> gs\<lparr>mutex := False\<rparr> = gs"
  by (cases gs) simp

lemma Unlock_Lock: "\<not> mutex gs \<Longrightarrow> Unlock (gs\<lparr>mutex := True\<rparr>) = gs"
  by (simp add: Unlock_def released)

lemma RLock_free: "\<not> mutex gs \<Longrightarrow> RLock gs = Returns gs"
  by (simp add: RLock_def)

lemma sends_free:
  "\<not> mutex gs \<Longrightarrow> sendToPlayer gs p = Returns gs"
  "\<not> mutex gs \<Longrightarrow> sendError gs p = Returns gs"
  "\<not> mutex gs \<Longrightarrow> sendGameUpdate gs g = Returns gs"
  "\<not> mutex gs \<Longrightarrow> sendLeaderboard gs = Returns gs"
  "\<not> mutex gs \<Longrightarrow> broadcastLeaderboard gs = Returns gs"
  by (simp_all add: sendToPlayer_def sendError_def sendGameUpdate_def sendLeaderboard_def
        broadcastLeaderboard_def getLeaderboard_def RLock_def split: option.splits)

lemma createMatch_matched:
  assumes "matchmaking gs = a # b # rest" "players gs a = Some ra" "players gs b = Some rb"
  shows "createMatch uuid gs =
     (if mutex gs then Blocks else Returns)
       (gs\<lparr>matchmaking := rest,
           objects := (objects gs)(ra := (objects gs ra)\<lparr>Symbol := ''X''\<rparr>,
                                   rb := (((objects gs)(ra := (objects gs ra)\<lparr>Symbol := ''X''\<rparr>)) rb)
                                           \<lparr>Symbol := ''O''\<rparr>),
           games := (games gs)(uuid \<mapsto>
             (NewGame uuid)\<lparr>PlayerX := Some ra, PlayerO := Some rb, Status := STATUS_PLAYING\<rparr>)\<rparr>)"
  using assms by (simp add: createMatch_def Let_def NewGame_def sendToPlayer_def RLock_def)

lemma createMatch_abandoned:
  assumes "matchmaking gs = a # b # rest" "players gs a = None \<or> players gs b = None"
  shows "createMatch uuid gs = Returns (gs\<lparr>matchmaking := rest\<rparr>)"
  using assms by (auto simp: createMatch_def Let_def split: option.splits)

lemma createMatch_short:
  "length (matchmaking gs) < 2 \<Longrightarrow> createMatch uuid gs = Returns gs"
  by (auto simp: createMatch_def split: list.splits)

lemma matchmaking_createMatch:
  "matchmaking (after (createMatch uuid gs)) =
     (if 2 \<le> length (matchmaking gs) then drop 2 (matchmaking gs) else matchmaking gs)"
  by (auto simp: createMatch_def Let_def sendToPlayer_def RLock_def
           split: list.splits option.splits)

lemma after_andThen_Unlock:
  "matchmaking (after (andThen c (\<lambda>s. Returns (Unlock s)))) = matchmaking (after c)"
  by (cases c) (simp_all add: Unlock_def)

lemma distinct_createMatch:
  "distinct (matchmaking gs) \<Longrightarrow> distinct (matchmaking (after (createMatch uuid gs)))"
  by (simp add: matchmaking_createMatch)

lemma handleJoinQueue_held: "mutex gs \<Longrightarrow> handleJoinQueue uuid gs player = Blocks gs"
  by (simp add: handleJoinQueue_def Lock_held)

lemma handleJoinQueue_present:
  "\<not> mutex gs \<Longrightarrow> ID (objects gs player) \<in> set (matchmaking gs) \<Longrightarrow>
     handleJoinQueue uuid gs player = Returns gs"
  by (simp add: handleJoinQueue_def Lock_free Unlock_Lock)

lemma handleJoinQueue_waits:
  "\<not> mutex gs \<Longrightarrow> matchmaking gs = [] \<Longrightarrow>
     handleJoinQueue uuid gs player = Returns (gs\<lparr>matchmaking := [ID (objects gs player)]\<rparr>)"
  by (simp add: handleJoinQueue_def Lock_free Let_def Unlock_def released)

lemma handleJoinQueue_fires:
  assumes "\<not> mutex gs" "ID (objects gs player) \<notin> set (matchmaking gs)"
    and "2 \<le> length (matchmaking gs @ [ID (objects gs player)])"
  shows "handleJoinQueue uuid gs player =
     andThen
       (createMatch uuid (gs\<lparr>mutex := True,
          matchmaking := matchmaking gs @ [ID (objects gs player)]\<rparr>))
       (\<lambda>gs3. Returns (Unlock gs3))"
  using assms by (simp add: handleJoinQueue_def Lock_free Let_def)

lemma handleJoinQueue_match_blocks:
  assumes "\<not> mutex gs" "ID (objects gs player) \<notin> set (matchmaking gs)"
    and "matchmaking gs @ [ID (objects gs player)] = a # b # rest"
    and "players gs a = Some ra" "players gs b = Some rb"
  shows "handleJoinQueue uuid gs player =
     Blocks
       (gs\<lparr>matchmaking := rest,
           objects := (objects gs)(ra := (objects gs ra)\<lparr>Symbol := ''X''\<rparr>,
                                   rb := (((objects gs)(ra := (objects gs ra)\<lparr>Symbol := ''X''\<rparr>)) rb)
                                           \<lparr>Symbol := ''O''\<rparr>),
           games := (games gs)(uuid \<mapsto>
             (NewGame uuid)\<lparr>PlayerX := Some ra, PlayerO := Some rb, Status := STATUS_PLAYING\<rparr>),
           mutex := True\<rparr>)"
proof -
  let ?gs2 = "gs\<lparr>mutex := True, matchmaking := matchmaking gs @ [ID (objects gs player)]\<rparr>"
  have len: "2 \<le> length (matchmaking gs @ [ID (objects gs player)])"
    using assms(3) by simp
  have m: "createMatch uuid ?gs2 =
     (if mutex ?gs2 then Blocks else Returns)
       (?gs2\<lparr>matchmaking := rest,
           objects := (objects ?gs2)(ra := (objects ?gs2 ra)\<lparr>Symbol := ''X''\<rparr>,
                                   rb := (((objects ?gs2)(ra := (objects ?gs2 ra)\<lparr>Symbol := ''X''\<rparr>)) rb)
                                           \<lparr>Symbol := ''O''\<rparr>),
           games := (games ?gs2)(uuid \<mapsto>
             (NewGame uuid)\<lparr>PlayerX := Some ra, PlayerO := Some rb, Status := STATUS_PLAYING\<rparr>)\<rparr>)"
  proof (rule createMatch_matched)
    show "matchmaking ?gs2 = a # b # rest" using assms(3) by simp
    show "players ?gs2 a = Some ra" using assms(4) by simp
    show "players ?gs2 b = Some rb" using assms(5) by simp
  qed
  show ?thesis
    unfolding handleJoinQueue_fires [OF assms(1,2) len] m by simp
qed

lemma matchmaking_handleJoinQueue:
  "distinct (matchmaking gs) \<Longrightarrow> distinct (matchmaking (after (handleJoinQueue uuid gs player)))"
proof (cases "mutex gs")
  case True
  assume "distinct (matchmaking gs)"
  then show ?thesis using True by (simp add: handleJoinQueue_held)
next
  case False
  assume d: "distinct (matchmaking gs)"
  show ?thesis
  proof (cases "ID (objects gs player) \<in> set (matchmaking gs)")
    case True
    then show ?thesis using d False by (simp add: handleJoinQueue_present)
  next
    case absent: False
    let ?gs2 = "gs\<lparr>mutex := True, matchmaking := matchmaking gs @ [ID (objects gs player)]\<rparr>"
    have d2: "distinct (matchmaking ?gs2)" using d absent by simp
    show ?thesis
    proof (cases "2 \<le> length (matchmaking gs @ [ID (objects gs player)])")
      case True
      have "distinct (matchmaking (after (createMatch uuid ?gs2)))"
        using d2 by (rule distinct_createMatch)
      then show ?thesis
        by (simp add: handleJoinQueue_fires [OF False absent True] after_andThen_Unlock)
    next
      case short: False
      then have "matchmaking gs = []" by (cases "matchmaking gs") simp_all
      then show ?thesis using False by (simp add: handleJoinQueue_waits)
    qed
  qed
qed

section \<open>The handlers, lock by lock\<close>

lemma handleLeaveQueue_held: "mutex gs \<Longrightarrow> handleLeaveQueue gs player = Blocks gs"
  by (simp add: handleLeaveQueue_def Lock_held)

lemma handleLeaveQueue_free:
  "\<not> mutex gs \<Longrightarrow>
     handleLeaveQueue gs player =
       Returns (gs\<lparr>matchmaking := remove1 (ID (objects gs player)) (matchmaking gs)\<rparr>)"
  by (simp add: handleLeaveQueue_def Lock_free Unlock_def released)

lemma handleDisconnect_held: "mutex gs \<Longrightarrow> handleDisconnect gs conn = Blocks gs"
  by (simp add: handleDisconnect_def Lock_held)

lemma handleDisconnect_free:
  "\<not> mutex gs \<Longrightarrow>
     handleDisconnect gs conn =
       (case clients gs conn of
          None \<Rightarrow> Returns gs
        | Some player \<Rightarrow>
            Returns (gs\<lparr>matchmaking := remove1 (ID (objects gs player)) (matchmaking gs),
                        clients := (clients gs)(conn := None)\<rparr>))"
  by (simp add: handleDisconnect_def Lock_free Unlock_def released split: option.splits)

lemma register_held: "mutex gs \<Longrightarrow> HandleWebSocket_register gs conn r uuid name = Blocks gs"
  by (simp add: HandleWebSocket_register_def Lock_held)

lemma register_free:
  "\<not> mutex gs \<Longrightarrow>
     HandleWebSocket_register gs conn r uuid name =
       Returns (gs\<lparr>objects := (objects gs)
                        (r := NewPlayer uuid (if name = [] then ''Anonymous'' else name)),
                   clients := (clients gs)(conn \<mapsto> r),
                   players := (players gs)(uuid \<mapsto> r)\<rparr>)"
  by (simp add: HandleWebSocket_register_def Lock_free Unlock_def released Let_def)

lemma distinct_handleLeaveQueue:
  "distinct (matchmaking gs) \<Longrightarrow> distinct (matchmaking (after (handleLeaveQueue gs player)))"
  by (cases "mutex gs") (simp_all add: handleLeaveQueue_held handleLeaveQueue_free)

lemma distinct_handleDisconnect:
  "distinct (matchmaking gs) \<Longrightarrow> distinct (matchmaking (after (handleDisconnect gs conn)))"
  by (cases "mutex gs")
     (simp_all add: handleDisconnect_held handleDisconnect_free split: option.splits)

lemma distinct_register:
  "distinct (matchmaking gs) \<Longrightarrow>
     distinct (matchmaking (after (HandleWebSocket_register gs conn r uuid name)))"
  by (cases "mutex gs") (simp_all add: register_held register_free)

lemma handleMakeMove_free:
  assumes "\<not> mutex gs"
  shows "handleMakeMove impl gs msg =
     (case decodeObject (Data msg) ''gameId'' of
        Some (JString gameID) \<Rightarrow>
          (case decodeObject (Data msg) ''position'' of
             Some (JNumber position) \<Rightarrow>
               (case games gs gameID of
                  None \<Rightarrow> Returns gs
                | Some gameInstance \<Rightarrow>
                    (case MakeMove impl (objects gs) gameInstance (PlayerID msg)
                            (toInt impl (Fin position)) of
                       (err, h, g) \<Rightarrow>
                         Returns (gs\<lparr>objects := h, games := (games gs)(gameID \<mapsto> g)\<rparr>)))
           | _ \<Rightarrow> Returns gs)
      | _ \<Rightarrow> Returns gs)"
  using assms
  by (simp add: handleMakeMove_def Let_def Lock_free Unlock_Lock sends_free
        split: option.splits json.splits prod.splits)

lemma matchmaking_handleMakeMove:
  "matchmaking (after (handleMakeMove impl gs msg)) = matchmaking gs"
proof (cases "mutex gs")
  case True
  then show ?thesis
    by (simp add: handleMakeMove_def Let_def Lock_held split: option.splits json.splits)
next
  case False
  then show ?thesis
    by (simp add: handleMakeMove_free split: option.splits json.splits prod.splits)
qed

lemma handleMessage_held: "mutex gs \<Longrightarrow> handleMessage impl uuid gs conn msg = Blocks gs"
  by (simp add: handleMessage_def Lock_held)

lemma handleMessage_free:
  assumes "\<not> mutex gs"
  shows "handleMessage impl uuid gs conn msg =
     (case clients gs conn of
        None \<Rightarrow> Returns gs
      | Some player \<Rightarrow>
          if Type msg = MSG_JOIN_QUEUE then handleJoinQueue uuid gs player
          else if Type msg = MSG_LEAVE_QUEUE then handleLeaveQueue gs player
          else if Type msg = MSG_MAKE_MOVE
            then handleMakeMove impl gs (msg\<lparr>PlayerID := ID (objects gs player)\<rparr>)
          else Returns gs)"
  using assms
  by (simp add: handleMessage_def Lock_free Unlock_Lock Let_def sends_free split: option.splits)

lemma distinct_handleMessage:
  assumes "distinct (matchmaking gs)"
  shows "distinct (matchmaking (after (handleMessage impl uuid gs conn msg)))"
proof (cases "mutex gs")
  case True
  then show ?thesis using assms by (simp add: handleMessage_held)
next
  case False
  show ?thesis
    using assms
    by (simp add: handleMessage_free [OF False] matchmaking_handleJoinQueue
          distinct_handleLeaveQueue matchmaking_handleMakeMove split: option.splits)
qed

lemma distinct_serve:
  "distinct (matchmaking gs) \<Longrightarrow> distinct (matchmaking (serve impl gs e))"
  by (cases e) (simp_all add: distinct_handleMessage distinct_handleDisconnect distinct_register)

lemma distinct_run:
  "distinct (matchmaking gs) \<Longrightarrow> distinct (matchmaking (foldl (serve impl) gs es))"
  by (induction es arbitrary: gs) (simp_all add: distinct_serve)

lemma held_serve: "mutex gs \<Longrightarrow> serve impl gs e = gs"
  by (cases e) (simp_all add: handleMessage_held handleDisconnect_held register_held)

lemma held_run: "mutex gs \<Longrightarrow> foldl (serve impl) gs es = gs"
  by (induction es) (simp_all add: held_serve)

lemmas message_defs =
  MSG_JOIN_QUEUE_def MSG_LEAVE_QUEUE_def MSG_MAKE_MOVE_def MSG_LEADERBOARD_def

lemma scenarioServer_eq:
  "scenarioServer =
     \<lparr>clients = [10 \<mapsto> 0, 11 \<mapsto> 1, 12 \<mapsto> 2], games = Map.empty,
      players = [''a'' \<mapsto> 0, ''b'' \<mapsto> 1, ''c'' \<mapsto> 2], matchmaking = [],
      objects = (\<lambda>_. NewPlayer [] [])
        (0 := NewPlayer ''a'' ''Alice'', 1 := NewPlayer ''b'' ''Bob'', 2 := NewPlayer ''c'' ''Carol''),
      mutex = False\<rparr>"
  by (simp add: scenarioServer_def NewGameServer_def register_free)

lemma scenarioServer_facts:
  "\<not> mutex scenarioServer" "matchmaking scenarioServer = []"
  "clients scenarioServer 10 = Some 0" "clients scenarioServer 11 = Some 1"
  "clients scenarioServer 12 = Some 2"
  "players scenarioServer ''a'' = Some 0" "players scenarioServer ''b'' = Some 1"
  "ID (objects scenarioServer 0) = ''a''" "ID (objects scenarioServer 1) = ''b''"
  "ID (objects scenarioServer 2) = ''c''" "games scenarioServer = Map.empty"
  "ID (objects scenarioServer (Suc 0)) = ''b''"
  by (simp_all add: scenarioServer_eq NewPlayer_def)

text \<open>
  C6. Alice, Bob and Carol are connected and join the waiting list in this order.
  Alice's join returns with Alice waiting. Bob's join takes both off the list and stores
  a game in status \<^verbatim>\<open>playing\<close> with Alice as X and Bob as O, first in, first out; then
  it blocks in sendToPlayer with the write lock held. Carol's join blocks on that lock:
  the list stays empty, and Carol is not waiting alone on it.
\<close>

theorem third_join_is_never_enqueued:
  "handleMessage impl ''f'' scenarioServer 10 joinQueue
     = Returns (scenarioServer\<lparr>matchmaking := [''a'']\<rparr>) \<and>
   handleMessage impl ''g'' (scenarioServer\<lparr>matchmaking := [''a'']\<rparr>) 11 joinQueue
     = Blocks hungServer \<and>
   matchmaking hungServer = [] \<and> games hungServer ''g'' = Some scenarioGame \<and>
   mutex hungServer \<and>
   handleMessage impl ''h'' hungServer 12 joinQueue = Blocks hungServer \<and>
   foldl (serve impl) scenarioServer
     [Message 10 joinQueue ''f'', Message 11 joinQueue ''g'', Message 12 joinQueue ''h'']
     = hungServer \<and>
   matchmaking hungServer \<noteq> [''c'']"
proof -
  let ?s1 = "scenarioServer\<lparr>matchmaking := [''a'']\<rparr>"
  have ty: "Type joinQueue = MSG_JOIN_QUEUE" by (simp add: joinQueue_def)
  have j1: "handleMessage impl ''f'' scenarioServer 10 joinQueue = Returns ?s1"
    by (simp add: handleMessage_free scenarioServer_facts ty handleJoinQueue_waits)
  have b: "handleJoinQueue ''g'' ?s1 1 =
     Blocks
       (?s1\<lparr>matchmaking := [],
           objects := (objects ?s1)(0 := (objects ?s1 0)\<lparr>Symbol := ''X''\<rparr>,
                                   1 := (((objects ?s1)(0 := (objects ?s1 0)\<lparr>Symbol := ''X''\<rparr>)) 1)
                                           \<lparr>Symbol := ''O''\<rparr>),
           games := (games ?s1)(''g'' \<mapsto>
             (NewGame ''g'')\<lparr>PlayerX := Some 0, PlayerO := Some 1, Status := STATUS_PLAYING\<rparr>),
           mutex := True\<rparr>)"
    by (rule handleJoinQueue_match_blocks [where a = "''a''" and b = "''b''"])
       (simp_all add: scenarioServer_facts)
  have h: "handleJoinQueue ''g'' ?s1 1 = Blocks hungServer"
    unfolding b by (simp add: hungServer_def scenarioGame_def scenarioServer_facts)
  have j2: "handleMessage impl ''g'' ?s1 11 joinQueue = Blocks hungServer"
    using h by (simp add: handleMessage_free scenarioServer_facts ty)
  have m: "mutex hungServer" "matchmaking hungServer = []"
      "games hungServer ''g'' = Some scenarioGame"
    by (simp_all add: hungServer_def scenarioServer_facts)
  have j3: "handleMessage impl ''h'' hungServer 12 joinQueue = Blocks hungServer"
    using m(1) by (rule handleMessage_held)
  have run: "foldl (serve impl) scenarioServer
     [Message 10 joinQueue ''f'', Message 11 joinQueue ''g'', Message 12 joinQueue ''h'']
     = hungServer"
    by (simp add: j1 j2 j3)
  show ?thesis using j1 j2 m j3 run by simp
qed

text \<open>
  C7. The waiting list never holds an identifier twice: it is empty on a new server and
  stays free of duplicates under every handler, whether the handler returns or not, hence
  after any sequence of connections, messages and disconnections. Joining when already
  waiting changes nothing, so joining twice in a row from an empty list leaves a list of
  length 1. Leaving removes the first occurrence of the identifier, and changes nothing
  when there is none. On a server whose lock is held for good the handlers block and the
  list stays as it is.
\<close>

theorem waiting_list_has_no_duplicates:
  "distinct (matchmaking (foldl (serve impl) (NewGameServer mem) es)) \<and>
   (distinct (matchmaking gs) \<longrightarrow>
      distinct (matchmaking (after (handleJoinQueue uuid gs player))) \<and>
      distinct (matchmaking (after (handleLeaveQueue gs player))) \<and>
      distinct (matchmaking (after (handleDisconnect gs conn))) \<and>
      distinct (matchmaking (after (createMatch uuid gs))) \<and>
      distinct (matchmaking (after (handleMessage impl uuid gs conn msg)))) \<and>
   (ID (objects gs player) \<in> set (matchmaking gs) \<longrightarrow>
      after (handleJoinQueue uuid gs player) = gs \<and>
      (\<not> mutex gs \<longrightarrow> handleJoinQueue uuid gs player = Returns gs)) \<and>
   (\<not> mutex gs \<and> matchmaking gs = [] \<longrightarrow>
      handleJoinQueue uuid gs player = Returns (gs\<lparr>matchmaking := [ID (objects gs player)]\<rparr>) \<and>
      handleJoinQueue uuid' (after (handleJoinQueue uuid gs player)) player
        = handleJoinQueue uuid gs player \<and>
      length (matchmaking
        (after (handleJoinQueue uuid' (after (handleJoinQueue uuid gs player)) player))) = 1) \<and>
   (\<not> mutex gs \<and> ID (objects gs player) \<notin> set xs \<and>
    matchmaking gs = xs @ ID (objects gs player) # ys \<longrightarrow>
      handleLeaveQueue gs player = Returns (gs\<lparr>matchmaking := xs @ ys\<rparr>)) \<and>
   (ID (objects gs player) \<notin> set (matchmaking gs) \<longrightarrow>
      after (handleLeaveQueue gs player) = gs \<and>
      (\<not> mutex gs \<longrightarrow> handleLeaveQueue gs player = Returns gs)) \<and>
   (mutex gs \<longrightarrow>
      handleJoinQueue uuid gs player = Blocks gs \<and> handleLeaveQueue gs player = Blocks gs \<and>
      handleDisconnect gs conn = Blocks gs)"
proof -
  have run: "distinct (matchmaking (foldl (serve impl) (NewGameServer mem) es))"
    by (rule distinct_run) (simp add: NewGameServer_def)
  have keep: "distinct (matchmaking gs) \<longrightarrow>
      distinct (matchmaking (after (handleJoinQueue uuid gs player))) \<and>
      distinct (matchmaking (after (handleLeaveQueue gs player))) \<and>
      distinct (matchmaking (after (handleDisconnect gs conn))) \<and>
      distinct (matchmaking (after (createMatch uuid gs))) \<and>
      distinct (matchmaking (after (handleMessage impl uuid gs conn msg)))"
    by (simp add: matchmaking_handleJoinQueue distinct_handleLeaveQueue distinct_handleDisconnect
          distinct_createMatch distinct_handleMessage)
  have again: "ID (objects gs player) \<in> set (matchmaking gs) \<longrightarrow>
      after (handleJoinQueue uuid gs player) = gs \<and>
      (\<not> mutex gs \<longrightarrow> handleJoinQueue uuid gs player = Returns gs)"
    by (cases "mutex gs") (simp_all add: handleJoinQueue_held handleJoinQueue_present)
  have twice: "\<not> mutex gs \<and> matchmaking gs = [] \<longrightarrow>
      handleJoinQueue uuid gs player = Returns (gs\<lparr>matchmaking := [ID (objects gs player)]\<rparr>) \<and>
      handleJoinQueue uuid' (after (handleJoinQueue uuid gs player)) player
        = handleJoinQueue uuid gs player \<and>
      length (matchmaking
        (after (handleJoinQueue uuid' (after (handleJoinQueue uuid gs player)) player))) = 1"
    by (simp add: handleJoinQueue_waits handleJoinQueue_present)
  have leave: "\<not> mutex gs \<and> ID (objects gs player) \<notin> set xs \<and>
    matchmaking gs = xs @ ID (objects gs player) # ys \<longrightarrow>
      handleLeaveQueue gs player = Returns (gs\<lparr>matchmaking := xs @ ys\<rparr>)"
    by (simp add: handleLeaveQueue_free remove1_append)
  have absent: "ID (objects gs player) \<notin> set (matchmaking gs) \<longrightarrow>
      after (handleLeaveQueue gs player) = gs \<and>
      (\<not> mutex gs \<longrightarrow> handleLeaveQueue gs player = Returns gs)"
    by (cases "mutex gs") (simp_all add: handleLeaveQueue_held handleLeaveQueue_free remove1_idem)
  have held: "mutex gs \<longrightarrow>
      handleJoinQueue uuid gs player = Blocks gs \<and> handleLeaveQueue gs player = Blocks gs \<and>
      handleDisconnect gs conn = Blocks gs"
    by (simp add: handleJoinQueue_held handleLeaveQueue_held handleDisconnect_held)
  show ?thesis using run keep again twice leave absent held by blast
qed

theorem waiting_list_has_no_duplicates_witness:
  "\<not> mutex (scenarioServer\<lparr>matchmaking := [''a'']\<rparr>) \<and>
   distinct (matchmaking (scenarioServer\<lparr>matchmaking := [''a'']\<rparr>)) \<and>
   distinct (matchmaking (after (handleJoinQueue ''g'' (scenarioServer\<lparr>matchmaking := [''a'']\<rparr>) 1))) \<and>
   ID (objects (scenarioServer\<lparr>matchmaking := [''a'']\<rparr>) 0)
     \<in> set (matchmaking (scenarioServer\<lparr>matchmaking := [''a'']\<rparr>)) \<and>
   handleJoinQueue ''g'' (scenarioServer\<lparr>matchmaking := [''a'']\<rparr>) 0
     = Returns (scenarioServer\<lparr>matchmaking := [''a'']\<rparr>) \<and>
   matchmaking (after (handleLeaveQueue (scenarioServer\<lparr>matchmaking := [''a'']\<rparr>) 0)) = [] \<and>
   \<not> mutex scenarioServer \<and> matchmaking scenarioServer = [] \<and>
   length (matchmaking
     (after (handleJoinQueue ''h'' (after (handleJoinQueue ''g'' scenarioServer 0)) 0))) = 1 \<and>
   handleLeaveQueue scenarioServer 0 = Returns scenarioServer \<and>
   mutex hungServer \<and> handleJoinQueue ''h'' hungServer 2 = Blocks hungServer"
proof -
  let ?gs = "scenarioServer\<lparr>matchmaking := [''a'']\<rparr>"
  have f: "\<not> mutex ?gs" "\<not> mutex scenarioServer"
    by (simp_all add: scenarioServer_facts)
  have q: "matchmaking ?gs = [] @ ID (objects ?gs 0) # []" "ID (objects ?gs 0) \<notin> set []"
    by (simp_all add: scenarioServer_facts)
  have d: "distinct (matchmaking ?gs)" by simp
  have i: "ID (objects ?gs 0) \<in> set (matchmaking ?gs)" by (simp add: scenarioServer_facts)
  have e: "matchmaking scenarioServer = []" by (simp add: scenarioServer_facts)
  have n: "ID (objects scenarioServer 0) \<notin> set (matchmaking scenarioServer)"
    by (simp add: e)
  have m: "mutex hungServer" by (simp add: hungServer_def)
  note t1 = waiting_list_has_no_duplicates
    [where gs = ?gs and player = 0 and uuid = "''g''" and xs = "[]" and ys = "[]"]
  note t2 = waiting_list_has_no_duplicates
    [where gs = ?gs and player = 1 and uuid = "''g''"]
  note t3 = waiting_list_has_no_duplicates
    [where gs = scenarioServer and player = 0 and uuid = "''g''" and uuid' = "''h''"]
  note t4 = waiting_list_has_no_duplicates
    [where gs = hungServer and player = 2 and uuid = "''h''"]
  have c1: "handleJoinQueue ''g'' ?gs 0 = Returns ?gs" using t1 i f(1) by blast
  have "handleLeaveQueue ?gs 0 = Returns (?gs\<lparr>matchmaking := [] @ []\<rparr>)" using t1 q f(1) by blast
  then have c2: "matchmaking (after (handleLeaveQueue ?gs 0)) = []" by simp
  have c3: "distinct (matchmaking (after (handleJoinQueue ''g'' ?gs 1)))" using t2 d by blast
  have c4: "length (matchmaking
      (after (handleJoinQueue ''h'' (after (handleJoinQueue ''g'' scenarioServer 0)) 0))) = 1"
    using t3 e f(2) by blast
  have c5: "handleLeaveQueue scenarioServer 0 = Returns scenarioServer" using t3 n f(2) by blast
  have c6: "handleJoinQueue ''h'' hungServer 2 = Blocks hungServer" using t4 m by blast
  show ?thesis using f d i e m c1 c2 c3 c4 c5 c6 by blast
qed

section \<open>Who makes a move\<close>

lemma handleMakeMove_reads:
  assumes "decodeObject (Data m') ''gameId'' = decodeObject (Data m) ''gameId''"
    and "decodeObject (Data m') ''position'' = decodeObject (Data m) ''position''"
    and "PlayerID m' = PlayerID m"
  shows "handleMakeMove impl gs m' = handleMakeMove impl gs m"
  unfolding handleMakeMove_def Let_def assms by (rule refl)

lemma handleMessage_make_move:
  assumes "\<not> mutex gs" "Type msg = MSG_MAKE_MOVE" "clients gs conn = Some player"
  shows "handleMessage impl uuid gs conn msg =
     handleMakeMove impl gs (msg\<lparr>PlayerID := ID (objects gs player)\<rparr>)"
  using assms by (simp add: handleMessage_free message_defs)

lemma handleMessage_unknown_connection:
  "\<not> mutex gs \<Longrightarrow> clients gs conn = None \<Longrightarrow> handleMessage impl uuid gs conn msg = Returns gs"
  by (simp add: handleMessage_free)

text \<open>
  C10. The handling of a \<^verbatim>\<open>make_move\<close> message does not depend on any player identifier
  the client supplies. Two such messages on the same connection whose payloads agree on
  \<^verbatim>\<open>gameId\<close> and \<^verbatim>\<open>position\<close> have the same outcome and leave the server in the same
  state, whatever their PlayerID and GameID fields and the rest of their payloads are.
  With the lock free the handler returns, and the move is made under the identifier of
  the player registered for the connection; a message on a connection that has no
  registered player changes nothing; with the lock held the handler blocks and changes
  nothing.
\<close>

theorem make_move_ignores_claimed_sender:
  "(Type msg = MSG_MAKE_MOVE \<and> Type msg' = MSG_MAKE_MOVE \<and>
    decodeObject (Data msg') ''gameId'' = decodeObject (Data msg) ''gameId'' \<and>
    decodeObject (Data msg') ''position'' = decodeObject (Data msg) ''position'' \<longrightarrow>
      handleMessage impl uuid' gs conn msg' = handleMessage impl uuid gs conn msg) \<and>
   (\<not> mutex gs \<and> Type msg = MSG_MAKE_MOVE \<and> clients gs conn = Some player \<and>
    decodeObject (Data msg) ''gameId'' = Some (JString gameID) \<and>
    decodeObject (Data msg) ''position'' = Some (JNumber position) \<and>
    games gs gameID = Some game \<longrightarrow>
      handleMessage impl uuid gs conn msg =
        Returns
          (case MakeMove impl (objects gs) game (ID (objects gs player))
                  (toInt impl (Fin position)) of
             (err, h, g) \<Rightarrow> gs\<lparr>objects := h, games := (games gs)(gameID \<mapsto> g)\<rparr>)) \<and>
   (clients gs conn = None \<longrightarrow>
      after (handleMessage impl uuid gs conn msg) = gs \<and>
      (\<not> mutex gs \<longrightarrow> handleMessage impl uuid gs conn msg = Returns gs)) \<and>
   (mutex gs \<longrightarrow> handleMessage impl uuid gs conn msg = Blocks gs)"
proof (intro conjI impI)
  assume a: "Type msg = MSG_MAKE_MOVE \<and> Type msg' = MSG_MAKE_MOVE \<and>
    decodeObject (Data msg') ''gameId'' = decodeObject (Data msg) ''gameId'' \<and>
    decodeObject (Data msg') ''position'' = decodeObject (Data msg) ''position''"
  show "handleMessage impl uuid' gs conn msg' = handleMessage impl uuid gs conn msg"
  proof (cases "mutex gs")
    case True
    then show ?thesis by (simp add: handleMessage_held)
  next
    case free: False
    show ?thesis
    proof (cases "clients gs conn")
      case None
      then show ?thesis using free by (simp add: handleMessage_unknown_connection)
    next
      case (Some player)
      have "handleMakeMove impl gs (msg'\<lparr>PlayerID := ID (objects gs player)\<rparr>)
          = handleMakeMove impl gs (msg\<lparr>PlayerID := ID (objects gs player)\<rparr>)"
        by (rule handleMakeMove_reads) (use a in simp_all)
      then show ?thesis
        using a Some free by (simp add: handleMessage_make_move)
    qed
  qed
next
  assume a: "\<not> mutex gs \<and> Type msg = MSG_MAKE_MOVE \<and> clients gs conn = Some player \<and>
    decodeObject (Data msg) ''gameId'' = Some (JString gameID) \<and>
    decodeObject (Data msg) ''position'' = Some (JNumber position) \<and>
    games gs gameID = Some game"
  then have "handleMessage impl uuid gs conn msg =
      handleMakeMove impl gs (msg\<lparr>PlayerID := ID (objects gs player)\<rparr>)"
    by (simp add: handleMessage_make_move)
  also have "\<dots> =
      Returns
        (case MakeMove impl (objects gs) game (ID (objects gs player))
                (toInt impl (Fin position)) of
           (err, h, g) \<Rightarrow> gs\<lparr>objects := h, games := (games gs)(gameID \<mapsto> g)\<rparr>)"
    using a by (simp add: handleMakeMove_free split: prod.splits)
  finally show "handleMessage impl uuid gs conn msg =
      Returns
        (case MakeMove impl (objects gs) game (ID (objects gs player))
                (toInt impl (Fin position)) of
           (err, h, g) \<Rightarrow> gs\<lparr>objects := h, games := (games gs)(gameID \<mapsto> g)\<rparr>)" .
next
  assume "clients gs conn = None"
  then show "after (handleMessage impl uuid gs conn msg) = gs"
    by (cases "mutex gs") (simp_all add: handleMessage_held handleMessage_unknown_connection)
next
  assume "clients gs conn = None" "\<not> mutex gs"
  then show "handleMessage impl uuid gs conn msg = Returns gs"
    by (simp add: handleMessage_unknown_connection)
next
  assume "mutex gs"
  then show "handleMessage impl uuid gs conn msg = Blocks gs"
    by (rule handleMessage_held)
qed

theorem make_move_ignores_claimed_sender_witness:
  "PlayerID forgedMove \<noteq> PlayerID honestMove \<and> Data forgedMove \<noteq> Data honestMove \<and>
   Type honestMove = MSG_MAKE_MOVE \<and> Type forgedMove = MSG_MAKE_MOVE \<and>
   \<not> mutex scenarioPlaying \<and>
   clients scenarioPlaying 10 = Some 0 \<and> games scenarioPlaying ''g'' = Some scenarioGame \<and>
   handleMessage (\<lambda>_. 0) ''u'' scenarioPlaying 10 forgedMove
     = handleMessage (\<lambda>_. 0) ''u'' scenarioPlaying 10 honestMove \<and>
   handleMessage (\<lambda>_. 0) ''u'' scenarioPlaying 10 honestMove
     = Returns
         (case MakeMove (\<lambda>_. 0) (objects scenarioPlaying) scenarioGame ''a'' 0 of
            (err, h, g) \<Rightarrow>
              scenarioPlaying\<lparr>objects := h, games := (games scenarioPlaying)(''g'' \<mapsto> g)\<rparr>) \<and>
   clients scenarioPlaying 13 = None \<and>
   handleMessage (\<lambda>_. 0) ''u'' scenarioPlaying 13 honestMove = Returns scenarioPlaying \<and>
   mutex hungServer \<and>
   handleMessage (\<lambda>_. 0) ''u'' hungServer 10 honestMove = Blocks hungServer"
proof -
  have ty: "Type honestMove = MSG_MAKE_MOVE" "Type forgedMove = MSG_MAKE_MOVE"
    by (simp_all add: honestMove_def forgedMove_def)
  have dec:
    "decodeObject (Data honestMove) ''gameId'' = Some (JString ''g'')"
    "decodeObject (Data honestMove) ''position'' = Some (JNumber 0)"
    "decodeObject (Data forgedMove) ''gameId'' = Some (JString ''g'')"
    "decodeObject (Data forgedMove) ''position'' = Some (JNumber 0)"
    by (simp_all add: honestMove_def forgedMove_def decodeObject_def)
  have diff: "PlayerID forgedMove \<noteq> PlayerID honestMove" "Data forgedMove \<noteq> Data honestMove"
    by (simp_all add: honestMove_def forgedMove_def)
  have st: "clients scenarioPlaying 10 = Some 0" "games scenarioPlaying ''g'' = Some scenarioGame"
      "ID (objects scenarioPlaying 0) = ''a''" "\<not> mutex scenarioPlaying"
      "clients scenarioPlaying 13 = None"
    by (simp_all add: scenarioPlaying_def scenarioServer_eq NewPlayer_def)
  have m: "mutex hungServer" by (simp add: hungServer_def)
  have z: "toInt (\<lambda>_. 0) (Fin 0) = 0" by (simp add: truncToZero_def)
  note t = make_move_ignores_claimed_sender
    [where msg = honestMove and msg' = forgedMove and gs = scenarioPlaying and conn = 10
       and player = 0 and gameID = "''g''" and position = 0 and game = scenarioGame
       and impl = "\<lambda>_. 0" and uuid = "''u''" and uuid' = "''u''"]
  note t2 = make_move_ignores_claimed_sender
    [where msg = honestMove and gs = scenarioPlaying and conn = 13
       and impl = "\<lambda>_. 0" and uuid = "''u''"]
  note t3 = make_move_ignores_claimed_sender
    [where msg = honestMove and gs = hungServer and conn = 10
       and impl = "\<lambda>_. 0" and uuid = "''u''"]
  have c1: "handleMessage (\<lambda>_. 0) ''u'' scenarioPlaying 10 forgedMove
     = handleMessage (\<lambda>_. 0) ''u'' scenarioPlaying 10 honestMove"
    using t ty dec by simp
  have c2: "handleMessage (\<lambda>_. 0) ''u'' scenarioPlaying 10 honestMove
     = Returns
         (case MakeMove (\<lambda>_. 0) (objects scenarioPlaying) scenarioGame ''a'' 0 of
            (err, h, g) \<Rightarrow>
              scenarioPlaying\<lparr>objects := h, games := (games scenarioPlaying)(''g'' \<mapsto> g)\<rparr>)"
    using t ty dec st z by simp
  have c3: "handleMessage (\<lambda>_. 0) ''u'' scenarioPlaying 13 honestMove = Returns scenarioPlaying"
    using t2 st(4,5) by blast
  have c4: "handleMessage (\<lambda>_. 0) ''u'' hungServer 10 honestMove = Blocks hungServer"
    using t3 m by blast
  show ?thesis using ty diff st(1,2,4,5) m c1 c2 c3 c4 by blast
qed

end
